theory Spec2Isabelle
  imports Main "HOL-Library.Word"
begin

section \<open>Values of the Python run time\<close>

text \<open>
  Python \<open>bytes\<close> are lists of 8-bit words. A Python \<open>str\<close> is a list of
  Unicode code points (natural numbers); \<open>str_of\<close> writes an ASCII literal of the
  source as such a list.
\<close>

type_synonym byte = "8 word"
type_synonym bytes = "byte list"
type_synonym str = "nat list"

definition str_of :: "string \<Rightarrow> str" where
  "str_of cs = map of_char cs"

text \<open>
  The exceptions the modelled code can raise. \<open>HttpError\<close> carries the status code
  and the optional message of \<open>exceptions.HttpError\<close>.
\<close>

datatype error =
    KeyError
  | TypeError
  | AttributeError
  | ValueError
  | UnicodeEncodeError
  | UnicodeDecodeError
  | BinasciiError
  | AssertionError
  | HttpError int "str option"

definition bind :: "error + 'a \<Rightarrow> ('a \<Rightarrow> error + 'b) \<Rightarrow> error + 'b" where
  "bind m f = (case m of Inl e \<Rightarrow> Inl e | Inr x \<Rightarrow> f x)"

text \<open>\<open>d[key]\<close> on a dict: a missing key raises \<open>KeyError\<close>.\<close>

definition subscript :: "'a option \<Rightarrow> error + 'a" where
  "subscript v = (case v of None \<Rightarrow> Inl KeyError | Some x \<Rightarrow> Inr x)"

text \<open>\<open>EnumClass(value)\<close>: a value that is no member's value raises \<open>ValueError\<close>.\<close>

definition enum_call :: "'a option \<Rightarrow> error + 'a" where
  "enum_call v = (case v of None \<Rightarrow> Inl ValueError | Some x \<Rightarrow> Inr x)"

subsection \<open>The UTF-8 codec: \<open>bytes.decode()\<close> and \<open>str.encode()\<close>\<close>

text \<open>
  Both calls use the default codec, strict UTF-8 (RFC 3629): no overlong forms, no
  surrogates (U+D800 to U+DFFF), nothing above U+10FFFF. \<open>None\<close> is
  \<open>UnicodeDecodeError\<close> for \<open>utf8_decode\<close> and \<open>UnicodeEncodeError\<close> for
  \<open>utf8_encode\<close>.
\<close>

definition is_continuation :: "byte \<Rightarrow> bool" where
  "is_continuation b = (128 \<le> unat b \<and> unat b < 192)"

fun utf8_decode :: "bytes \<Rightarrow> str option" where
  "utf8_decode [] = Some []"
| "utf8_decode (b0 # bs) =
     (if unat b0 < 128 then map_option ((#) (unat b0)) (utf8_decode bs)
      else if 194 \<le> unat b0 \<and> unat b0 < 224 then
        (case bs of
           b1 # bs1 \<Rightarrow>
             if is_continuation b1
             then map_option ((#) ((unat b0 - 192) * 64 + (unat b1 - 128))) (utf8_decode bs1)
             else None
         | _ \<Rightarrow> None)
      else if 224 \<le> unat b0 \<and> unat b0 < 240 then
        (case bs of
           b1 # b2 # bs2 \<Rightarrow>
             let cp = (unat b0 - 224) * 4096 + (unat b1 - 128) * 64 + (unat b2 - 128) in
             if is_continuation b1 \<and> is_continuation b2 \<and> 2048 \<le> cp
                \<and> \<not> (55296 \<le> cp \<and> cp < 57344)
             then map_option ((#) cp) (utf8_decode bs2)
             else None
         | _ \<Rightarrow> None)
      else if 240 \<le> unat b0 \<and> unat b0 < 245 then
        (case bs of
           b1 # b2 # b3 # bs3 \<Rightarrow>
             let cp = (unat b0 - 240) * 262144 + (unat b1 - 128) * 4096
                      + (unat b2 - 128) * 64 + (unat b3 - 128) in
             if is_continuation b1 \<and> is_continuation b2 \<and> is_continuation b3
                \<and> 65536 \<le> cp \<and> cp < 1114112
             then map_option ((#) cp) (utf8_decode bs3)
             else None
         | _ \<Rightarrow> None)
      else None)"

definition utf8_encode_char :: "nat \<Rightarrow> bytes option" where
  "utf8_encode_char cp =
     (if cp < 128 then Some [of_nat cp]
      else if cp < 2048 then Some [of_nat (192 + cp div 64), of_nat (128 + cp mod 64)]
      else if cp < 65536 then
        (if 55296 \<le> cp \<and> cp < 57344 then None
         else Some [of_nat (224 + cp div 4096), of_nat (128 + (cp div 64) mod 64),
                    of_nat (128 + cp mod 64)])
      else if cp < 1114112 then
        Some [of_nat (240 + cp div 262144), of_nat (128 + (cp div 4096) mod 64),
              of_nat (128 + (cp div 64) mod 64), of_nat (128 + cp mod 64)]
      else None)"

fun utf8_encode :: "str \<Rightarrow> bytes option" where
  "utf8_encode [] = Some []"
| "utf8_encode (cp # s) =
     (case utf8_encode_char cp of
        None \<Rightarrow> None
      | Some bs \<Rightarrow> map_option ((@) bs) (utf8_encode s))"


subsection \<open>Base64: \<open>base64.b64encode\<close> and the standard decoding\<close>

text \<open>
  \<open>b64_char\<close> is the alphabet \<open>A-Z a-z 0-9 + /\<close> of RFC 4648, \<open>61\<close> is the pad
  character \<open>=\<close>. \<open>b64encode\<close> is \<open>base64.b64encode\<close>: three bytes become four
  characters, a last group of one or two bytes is padded.
\<close>

definition b64_char :: "nat \<Rightarrow> byte" where
  "b64_char i = of_nat (if i < 26 then 65 + i else if i < 52 then 71 + i
                        else if i < 62 then i - 4 else if i = 62 then 43 else 47)"

fun b64encode :: "bytes \<Rightarrow> bytes" where
  "b64encode [] = []"
| "b64encode [a] =
     [b64_char (unat a div 4), b64_char ((unat a mod 4) * 16), 61, 61]"
| "b64encode [a, b] =
     [b64_char (unat a div 4), b64_char ((unat a mod 4) * 16 + unat b div 16),
      b64_char ((unat b mod 16) * 4), 61]"
| "b64encode (a # b # c # rest) =
     [b64_char (unat a div 4), b64_char ((unat a mod 4) * 16 + unat b div 16),
      b64_char ((unat b mod 16) * 4 + unat c div 64), b64_char (unat c mod 64)]
     @ b64encode rest"

definition b64_value :: "byte \<Rightarrow> nat option" where
  "b64_value c =
     (if 65 \<le> unat c \<and> unat c \<le> 90 then Some (unat c - 65)
      else if 97 \<le> unat c \<and> unat c \<le> 122 then Some (unat c - 71)
      else if 48 \<le> unat c \<and> unat c \<le> 57 then Some (unat c + 4)
      else if unat c = 43 then Some 62
      else if unat c = 47 then Some 63
      else None)"

fun standard_b64decode :: "bytes \<Rightarrow> bytes option" where
  "standard_b64decode [] = Some []"
| "standard_b64decode (c0 # c1 # c2 # c3 # rest) =
     (case (b64_value c0, b64_value c1) of
        (Some s0, Some s1) \<Rightarrow>
          if c2 = 61 \<and> c3 = 61 then
            (if rest = [] \<and> s1 mod 16 = 0 then Some [of_nat (s0 * 4 + s1 div 16)] else None)
          else
            (case b64_value c2 of
               None \<Rightarrow> None
             | Some s2 \<Rightarrow>
                 if c3 = 61 then
                   (if rest = [] \<and> s2 mod 4 = 0
                    then Some [of_nat (s0 * 4 + s1 div 16), of_nat ((s1 mod 16) * 16 + s2 div 4)]
                    else None)
                 else
                   (case b64_value c3 of
                      None \<Rightarrow> None
                    | Some s3 \<Rightarrow>
                        map_option
                          ((@) [of_nat (s0 * 4 + s1 div 16), of_nat ((s1 mod 16) * 16 + s2 div 4),
                                of_nat ((s2 mod 4) * 64 + s3)])
                          (standard_b64decode rest)))
      | _ \<Rightarrow> None)"
| "standard_b64decode _ = None"

text \<open>
  \<open>ascii_encode\<close> is \<open>s.encode('ascii')\<close>, the first step of \<open>base64.b64decode\<close>
  on a \<open>str\<close>; \<open>ascii_decode\<close> is \<open>.decode()\<close> on bytes that are all ASCII.
\<close>

definition ascii_encode :: "str \<Rightarrow> bytes option" where
  "ascii_encode s = (if list_all (\<lambda>c. c < 128) s then Some (map of_nat s) else None)"

text \<open>
  \<open>base64.b64decode(s)\<close> as base64.py has it: \<open>None\<close> is no bytes-like object
  (\<open>TypeError\<close>), a \<open>str\<close> with a non-ASCII character is a \<open>ValueError\<close>, and the
  bytes go to \<open>binascii.a2b_base64\<close>, a C function taken as the parameter \<open>a2b\<close>
  (in its default mode it skips characters outside the alphabet, and what it does with
  malformed input has changed between CPython versions).
\<close>

definition b64decode :: "(bytes \<Rightarrow> error + bytes) \<Rightarrow> str option \<Rightarrow> error + bytes" where
  "b64decode a2b s =
     (case s of
        None \<Rightarrow> Inl TypeError
      | Some t \<Rightarrow> (case ascii_encode t of None \<Rightarrow> Inl ValueError | Some bs \<Rightarrow> a2b bs))"

text \<open>ASCII case mapping, the instance of \<open>str.lower\<close> and \<open>str.upper\<close> on ASCII text.\<close>

definition ascii_lower :: "str \<Rightarrow> str" where
  "ascii_lower s = map (\<lambda>c. if 65 \<le> c \<and> c \<le> 90 then c + 32 else c) s"

definition ascii_upper :: "str \<Rightarrow> str" where
  "ascii_upper s = map (\<lambda>c. if 97 \<le> c \<and> c \<le> 122 then c - 32 else c) s"

section \<open>The header container\<close>

text \<open>
  Modelled from the spec: \<open>magicdict.FrozenTolerantMagicDict\<close>, the HeaderContainer of
  the spec, is a library that is not under src/. It is an ordered sequence of
  (name, value) pairs, immutable once constructed, with case-insensitive lookup; case
  folding applies to names only and happens at construction, so that \<open>items()\<close>
  yields folded names (\<open>translate\<close> compares them with the lower-case literal
  \<open>"content-length"\<close>). \<open>lower\<close> is \<open>str.lower\<close>.
\<close>

type_synonym container = "(str \<times> str) list"

definition FrozenTolerantMagicDict :: "(str \<Rightarrow> str) \<Rightarrow> (str \<times> str) list \<Rightarrow> container" where
  "FrozenTolerantMagicDict lower pairs = map (\<lambda>(k, v). (lower k, v)) pairs"

definition items :: "container \<Rightarrow> (str \<times> str) list" where
  "items d = d"

definition get_all :: "(str \<Rightarrow> str) \<Rightarrow> container \<Rightarrow> str \<Rightarrow> str list" where
  "get_all lower d name = map snd (filter (\<lambda>(k, v). k = lower name) d)"

definition get_first :: "(str \<Rightarrow> str) \<Rightarrow> container \<Rightarrow> str \<Rightarrow> str \<Rightarrow> str" where
  "get_first lower d name dflt =
     (case get_all lower d name of [] \<Rightarrow> dflt | v # _ \<Rightarrow> v)"

section \<open>LambdaResponse (impl\_lambda.py)\<close>

text \<open>
  The fields of \<open>LambdaResponse\<close>: the status code (an \<open>IntEnum\<close> member, read
  through \<open>int(...)\<close>), the header container, the list of body chunks and the
  \<open>asyncio.Event\<close> as a flag. The back-reference \<open>_request\<close> is only read by the
  \<open>request\<close> and \<open>version\<close> properties and is left out.
\<close>

record LambdaResponse =
  status_code :: int
  headers :: container
  body_chunks :: "bytes list"
  finished :: bool

definition LambdaResponse_init :: "int \<Rightarrow> container \<Rightarrow> LambdaResponse" where
  "LambdaResponse_init sc hs =
     \<lparr>status_code = sc, headers = hs, body_chunks = [], finished = False\<rparr>"

text \<open>
  \<open>write\<close>: \<open>if data: self._body_chunks.append(data)\<close>. The body has no
  \<open>raise\<close>; the result type is the one of every operation of the model.
\<close>

definition LambdaResponse_write :: "LambdaResponse \<Rightarrow> bytes \<Rightarrow> error + LambdaResponse" where
  "LambdaResponse_write r data =
     (if data \<noteq> [] then Inr (r\<lparr>body_chunks := body_chunks r @ [data]\<rparr>) else Inr r)"

text \<open>\<open>finish\<close>: \<open>self._finished.set()\<close>.\<close>

definition LambdaResponse_finish :: "LambdaResponse \<Rightarrow> LambdaResponse" where
  "LambdaResponse_finish r = r\<lparr>finished := True\<rparr>"

text \<open>A sequence of \<open>write\<close> calls, in call order.\<close>

fun write_all :: "LambdaResponse \<Rightarrow> bytes list \<Rightarrow> error + LambdaResponse" where
  "write_all r [] = Inr r"
| "write_all r (data # rest) = bind (LambdaResponse_write r data) (\<lambda>r'. write_all r' rest)"

text \<open>
  The dict \<open>header_lists\<close> of \<open>translate\<close> is an association list in insertion
  order. One pass of the loop body: skip \<open>content-length\<close>; a name that is not yet a
  key gets the empty list (a new key goes to the end); the value is appended to the list
  of its name.
\<close>

type_synonym header_lists = "(str \<times> str list) list"

definition header_lists_step :: "header_lists \<Rightarrow> str \<times> str \<Rightarrow> header_lists" where
  "header_lists_step hl item =
     (case item of (header_name, header_val) \<Rightarrow>
        if header_name \<in> set [str_of ''content-length''] then hl
        else
          let hl1 = (if header_name \<notin> set (map fst hl) then hl @ [(header_name, [])] else hl)
          in map (\<lambda>(k, vs). if k = header_name then (k, vs @ [header_val]) else (k, vs)) hl1)"

definition header_lists_of :: "container \<Rightarrow> header_lists" where
  "header_lists_of hs = foldl header_lists_step [] (items hs)"

text \<open>
  What the result is compared with: the values a list of pairs holds for one name, in
  order, and the distinct names of a list in the order of their first occurrence.
\<close>

definition values_of :: "'k \<Rightarrow> ('k \<times> 'v) list \<Rightarrow> 'v list" where
  "values_of k d = map snd (filter (\<lambda>p. fst p = k) d)"

fun first_seen :: "'a list \<Rightarrow> 'a list" where
  "first_seen [] = []"
| "first_seen (x # xs) = x # first_seen (filter (\<lambda>y. y \<noteq> x) xs)"

text \<open>The dict \<open>translate\<close> returns.\<close>

record envelope =
  out_isBase64Encoded :: bool
  out_statusCode :: int
  out_multiValueHeaders :: header_lists
  out_body :: str

text \<open>
  \<open>translate\<close>. Its first line is \<open>assert self.finished(), "..."\<close>. \<open>debug\<close>
  is Python's \<open>__debug__\<close>: true by default, false under \<open>python -O\<close> or
  \<open>PYTHONOPTIMIZE\<close>, where the compiler drops every \<open>assert\<close> and the body runs on
  an unfinished response too. \<open>body_bytes.decode()\<close> raising \<open>UnicodeDecodeError\<close>
  is the \<open>except\<close> branch; the \<open>.decode()\<close> of the base64 text inside it is not
  guarded.
\<close>

definition LambdaResponse_translate :: "bool \<Rightarrow> LambdaResponse \<Rightarrow> error + envelope" where
  "LambdaResponse_translate debug r =
     (if debug \<and> \<not> finished r then Inl AssertionError
      else
        let header_lists = header_lists_of (headers r);
            body_bytes = concat (body_chunks r)
        in case utf8_decode body_bytes of
             Some body_str \<Rightarrow>
               Inr \<lparr>out_isBase64Encoded = False, out_statusCode = status_code r,
                    out_multiValueHeaders = header_lists, out_body = body_str\<rparr>
           | None \<Rightarrow>
               (case utf8_decode (b64encode body_bytes) of
                  None \<Rightarrow> Inl UnicodeDecodeError
                | Some body_str \<Rightarrow>
                    Inr \<lparr>out_isBase64Encoded = True, out_statusCode = status_code r,
                         out_multiValueHeaders = header_lists, out_body = body_str\<rparr>))"

section \<open>LambdaRequest (impl\_lambda.py)\<close>

text \<open>
  What \<open>LambdaRequest.__init__\<close> uses and src/ does not hold: the enums of
  \<open>constants\<close> as lookups by value (\<open>None\<close>: no member has this value), Python's
  \<open>str.upper\<close> and \<open>str.lower\<close>, and \<open>binascii.a2b_base64\<close>.
\<close>

record ('m, 'v, 's) externals =
  HttpRequestMethod :: "str \<Rightarrow> 'm option"
  HttpVersion :: "str \<Rightarrow> 'v option"
  HttpScheme :: "str \<Rightarrow> 's option"
  str_upper :: "str \<Rightarrow> str"
  str_lower :: "str \<Rightarrow> str"
  a2b_base64 :: "bytes \<Rightarrow> error + bytes"

text \<open>
  The event dict, with the types of the gateway's JSON. \<open>None\<close> is a missing key.
  \<open>isBase64Encoded\<close> is a boolean (the code tests its truth value). The value of
  \<open>body\<close> is \<open>None\<close> (JSON null) or a string. \<open>httpMethod\<close>, \<open>protocol\<close>,
  \<open>domainName\<close> and \<open>path\<close> are strings, \<open>requestContext\<close> and
  \<open>multiValueHeaders\<close> are dicts; \<open>multiValueQueryStringParameters\<close> is \<open>None\<close>
  when the key is missing or null. A dict of lists is an association list in the
  dict's order.
\<close>

record request_context =
  protocol :: "str option"
  domainName :: "str option"

record event =
  isBase64Encoded :: "bool option"
  body :: "str option option"
  httpMethod :: "str option"
  requestContext :: "request_context option"
  path :: "str option"
  multiValueQueryStringParameters :: "(str \<times> str list) list option"
  multiValueHeaders :: "(str \<times> str list) list option"

text \<open>
  The attributes \<open>__init__\<close> sets; \<open>res_fur\<close> is the \<open>asyncio.Future\<close>, \<open>None\<close>
  while it is not done. \<open>_event\<close> is never read again and is left out.
\<close>

record ('m, 'v, 's) LambdaRequest =
  req_body :: bytes
  req_method :: 'm
  req_version :: 'v
  req_uri :: str
  req_authority :: "str option"
  req_queries :: container
  req_headers :: container
  req_scheme :: "'s option"
  res_fur :: "LambdaResponse option"

text \<open>Lines 37 to 41 of \<open>__init__\<close>: the body.\<close>

definition decode_body :: "('m, 'v, 's) externals \<Rightarrow> event \<Rightarrow> error + bytes" where
  "decode_body X ev =
     bind (subscript (isBase64Encoded ev)) (\<lambda>flag.
       if flag then bind (subscript (body ev)) (\<lambda>b. b64decode (a2b_base64 X) b)
       else bind (subscript (body ev)) (\<lambda>b.
         case b of
           None \<Rightarrow> Inr []
         | Some t \<Rightarrow>
             if t \<noteq> [] then
               (case utf8_encode t of None \<Rightarrow> Inl UnicodeEncodeError | Some bs \<Rightarrow> Inr bs)
             else Inr []))"

text \<open>The two loops that flatten a dict of lists into a list of pairs.\<close>

definition flatten :: "(str \<times> str list) list \<Rightarrow> (str \<times> str) list" where
  "flatten d = concat (map (\<lambda>(key, vals). map (\<lambda>v. (key, v)) vals) d)"

definition LambdaRequest_init ::
  "('m, 'v, 's) externals \<Rightarrow> event \<Rightarrow> error + ('m, 'v, 's) LambdaRequest" where
  "LambdaRequest_init X ev =
     bind (decode_body X ev) (\<lambda>body_bytes.
     bind (subscript (httpMethod ev)) (\<lambda>m.
     bind (enum_call (HttpRequestMethod X (str_upper X m))) (\<lambda>method.
     bind (subscript (requestContext ev)) (\<lambda>ctx.
     bind (subscript (protocol ctx)) (\<lambda>p.
     bind (enum_call (HttpVersion X p)) (\<lambda>version.
     let uri = (case path ev of None \<Rightarrow> str_of ''/'' | Some u \<Rightarrow> u);
         authority = domainName ctx;
         queries = FrozenTolerantMagicDict (str_lower X)
           (flatten (case multiValueQueryStringParameters ev of None \<Rightarrow> [] | Some q \<Rightarrow> q))
     in
     bind (subscript (multiValueHeaders ev)) (\<lambda>mvh.
     let hdrs = FrozenTolerantMagicDict (str_lower X) (flatten mvh);
         scheme_str = str_lower X (get_first (str_lower X) hdrs (str_of ''x-forwarded-proto'') [])
     in
     bind (if scheme_str \<noteq> [] then map_sum id Some (enum_call (HttpScheme X scheme_str))
           else Inr None) (\<lambda>scheme.
     Inr \<lparr>req_body = body_bytes, req_method = method, req_version = version, req_uri = uri,
          req_authority = authority, req_queries = queries, req_headers = hdrs,
          req_scheme = scheme, res_fur = None\<rparr>))))))))"

text \<open>
  \<open>write_response\<close>. Its body has no \<open>await\<close>, so under asyncio the test of
  \<open>done()\<close> and \<open>set_result\<close> run as one step. \<open>headers or {}\<close> is the empty
  mapping for \<open>None\<close>. The result is the response and the request with its future set.
\<close>

definition LambdaRequest_write_response ::
  "(str \<Rightarrow> str) \<Rightarrow> ('m, 'v, 's) LambdaRequest \<Rightarrow> int \<Rightarrow> (str \<times> str) list option
   \<Rightarrow> error + (LambdaResponse \<times> ('m, 'v, 's) LambdaRequest)" where
  "LambdaRequest_write_response lower rq sc hs =
     (if res_fur rq \<noteq> None
      then Inl (HttpError 500 (Some (str_of ''You can only write response once.'')))
      else
        let response = LambdaResponse_init sc
              (FrozenTolerantMagicDict lower (case hs of None \<Rightarrow> [] | Some h \<Rightarrow> h))
        in Inr (response, rq\<lparr>res_fur := Some response\<rparr>))"

text \<open>
  \<open>_get_final_response\<close> awaits the future and then the finished event. With nothing
  else running, an unset future or an unfinished response never wakes it: \<open>None\<close>.
\<close>

definition get_final_response :: "('m, 'v, 's) LambdaRequest \<Rightarrow> LambdaResponse option" where
  "get_final_response rq =
     (case res_fur rq of
        None \<Rightarrow> None
      | Some response \<Rightarrow> if finished response then Some response else None)"

text \<open>
  The calls that handler code can make on one request, in any order the scheduler
  gives: each is one atomic step. \<open>Write\<close> and \<open>Finish\<close> go to the response held by
  the future (the only response of the request); before there is one they have no
  object to go to and leave the request as it is.
\<close>

datatype call = WriteResponse int "(str \<times> str) list option" | Write bytes | Finish

definition is_WriteResponse :: "call \<Rightarrow> bool" where
  "is_WriteResponse c = (case c of WriteResponse sc hs \<Rightarrow> True | _ \<Rightarrow> False)"

definition step ::
  "(str \<Rightarrow> str) \<Rightarrow> ('m, 'v, 's) LambdaRequest \<Rightarrow> call
   \<Rightarrow> (error + unit) \<times> ('m, 'v, 's) LambdaRequest" where
  "step lower rq c =
     (case c of
        WriteResponse sc hs \<Rightarrow>
          (case LambdaRequest_write_response lower rq sc hs of
             Inl e \<Rightarrow> (Inl e, rq)
           | Inr (response, rq') \<Rightarrow> (Inr (), rq'))
      | Write data \<Rightarrow>
          (case res_fur rq of
             None \<Rightarrow> (Inr (), rq)
           | Some r \<Rightarrow>
               (case LambdaResponse_write r data of
                  Inl e \<Rightarrow> (Inl e, rq)
                | Inr r' \<Rightarrow> (Inr (), rq\<lparr>res_fur := Some r'\<rparr>)))
      | Finish \<Rightarrow>
          (case res_fur rq of
             None \<Rightarrow> (Inr (), rq)
           | Some r \<Rightarrow> (Inr (), rq\<lparr>res_fur := Some (LambdaResponse_finish r)\<rparr>)))"

fun run ::
  "(str \<Rightarrow> str) \<Rightarrow> ('m, 'v, 's) LambdaRequest \<Rightarrow> call list
   \<Rightarrow> (error + unit) list \<times> ('m, 'v, 's) LambdaRequest" where
  "run lower rq [] = ([], rq)"
| "run lower rq (c # cs) =
     (case step lower rq c of
        (res, rq') \<Rightarrow> (case run lower rq' cs of (ress, rq'') \<Rightarrow> (res # ress, rq'')))"

section \<open>The dispatch orchestrator (web.py)\<close>

text \<open>
  What a handler does to the request it was constructed with: it returns normally or
  raises, and it may have begun, written and finished the response on the way.
\<close>

type_synonym ('m, 'v, 's) action =
  "('m, 'v, 's) LambdaRequest \<Rightarrow> (error + unit) \<times> ('m, 'v, 's) LambdaRequest"

text \<open>
  A handler object: the \<open>before\<close> hook that \<open>Application.DefaultHandler\<close>
  overrides (\<open>handler_before\<close>), and everything else the class defines or
  inherits (\<open>handler_rest\<close>).
\<close>

record ('m, 'v, 's) handler =
  handler_before :: "('m, 'v, 's) action"
  handler_rest :: "('m, 'v, 's) action"

text \<open>
  Modelled from the spec: \<open>constants.HttpStatusCode.NOT_FOUND\<close> (constants.py is not
  under src/) is the 404-equivalent status.
\<close>

definition NOT_FOUND :: int where
  "NOT_FOUND = 404"

text \<open>
  \<open>Application.DefaultHandler\<close>: \<open>before\<close> raises \<open>HttpError(NOT_FOUND)\<close>; the
  rest is inherited from \<open>handlers.RequestHandler\<close> and is the parameter.
\<close>

definition DefaultHandler :: "('m, 'v, 's) action \<Rightarrow> ('m, 'v, 's) handler" where
  "DefaultHandler inherited =
     \<lparr>handler_before = (\<lambda>rq. (Inl (HttpError NOT_FOUND None), rq)),
      handler_rest = inherited\<rparr>"

text \<open>
  Modelled from the spec: the conversion of a raised error into a minimal Response
  (handlers.py is not under src/): begin a response with the status and finish it.
\<close>

definition minimal_response ::
  "(str \<Rightarrow> str) \<Rightarrow> ('m, 'v, 's) LambdaRequest \<Rightarrow> int \<Rightarrow> error + ('m, 'v, 's) LambdaRequest" where
  "minimal_response lower rq code =
     (case LambdaRequest_write_response lower rq code None of
        Inl e \<Rightarrow> Inl e
      | Inr (response, rq') \<Rightarrow> Inr (rq'\<lparr>res_fur := Some (LambdaResponse_finish response)\<rparr>))"

text \<open>
  Modelled from the spec: \<open>BaseRequestHandler._process_request\<close> (handlers.py is not
  under src/). The handler's entry point runs; an HTTP-semantic error (status code and
  optional message) is converted into a minimal Response with that status, any other
  error into a minimal 500 Response.
\<close>

definition recover ::
  "(str \<Rightarrow> str) \<Rightarrow> error \<Rightarrow> ('m, 'v, 's) LambdaRequest \<Rightarrow> error + ('m, 'v, 's) LambdaRequest" where
  "recover lower e rq =
     (case e of
        HttpError code msg \<Rightarrow> minimal_response lower rq code
      | _ \<Rightarrow> minimal_response lower rq 500)"

definition handler_process_request ::
  "(str \<Rightarrow> str) \<Rightarrow> ('m, 'v, 's) handler \<Rightarrow> ('m, 'v, 's) LambdaRequest
   \<Rightarrow> error + ('m, 'v, 's) LambdaRequest" where
  "handler_process_request lower h rq =
     (case handler_before h rq of
        (Inl e, rq1) \<Rightarrow> recover lower e rq1
      | (Inr u, rq1) \<Rightarrow>
          (case handler_rest h rq1 of
             (Inl e, rq2) \<Rightarrow> recover lower e rq2
           | (Inr u2, rq2) \<Rightarrow> Inr rq2))"

text \<open>
  \<open>Application.process_request\<close>. \<open>resolve\<close> is \<open>self.handlers.resolve\<close> followed
  by the construction of the handler; \<open>None\<close> is \<open>destination.NoMatchesFound\<close>.
  \<open>path_of\<close> is the \<open>path\<close> property of \<open>requests.Request\<close> (not under src/).
\<close>

definition process_request ::
  "(str \<Rightarrow> str) \<Rightarrow> (str \<Rightarrow> ('m, 'v, 's) handler option)
   \<Rightarrow> (('m, 'v, 's) LambdaRequest \<Rightarrow> str) \<Rightarrow> ('m, 'v, 's) action
   \<Rightarrow> ('m, 'v, 's) LambdaRequest \<Rightarrow> error + ('m, 'v, 's) LambdaRequest" where
  "process_request lower resolve path_of inherited rq =
     (let h = (case resolve (path_of rq) of
                 Some resolved \<Rightarrow> resolved
               | None \<Rightarrow> DefaultHandler inherited)
      in handler_process_request lower h rq)"

text \<open>
  \<open>Application.process_lambda_request\<close>. The outer \<open>None\<close> is an await that never
  returns.
\<close>

definition process_lambda_request ::
  "bool \<Rightarrow> ('m, 'v, 's) externals \<Rightarrow> (str \<Rightarrow> ('m, 'v, 's) handler option)
   \<Rightarrow> (('m, 'v, 's) LambdaRequest \<Rightarrow> str) \<Rightarrow> ('m, 'v, 's) action
   \<Rightarrow> event \<Rightarrow> (error + envelope) option" where
  "process_lambda_request debug X resolve path_of inherited ev =
     (case LambdaRequest_init X ev of
        Inl e \<Rightarrow> Some (Inl e)
      | Inr request \<Rightarrow>
          (case process_request (str_lower X) resolve path_of inherited request of
             Inl e \<Rightarrow> Some (Inl e)
           | Inr request' \<Rightarrow>
               (case get_final_response request' of
                  None \<Rightarrow> None
                | Some response \<Rightarrow> Some (LambdaResponse_translate debug response))))"

section \<open>format\_timestamp (httputils.py)\<close>






section \<open>An instance for evaluating the model\<close>

text \<open>
  Enum members stand for their values: the methods \<open>GET\<close> and \<open>POST\<close>, the version
  \<open>HTTP/1.1\<close>, the schemes \<open>http\<close> and \<open>https\<close>. Case mapping is the ASCII one,
  and \<open>a2b_base64\<close> is the standard decoder. \<open>example_event\<close> is the input envelope
  of the spec's example scenario.
\<close>

definition a2b_standard :: "bytes \<Rightarrow> error + bytes" where
  "a2b_standard bs =
     (case standard_b64decode bs of None \<Rightarrow> Inl BinasciiError | Some x \<Rightarrow> Inr x)"

definition example_externals :: "(str, str, str) externals" where
  "example_externals =
     \<lparr>HttpRequestMethod =
        (\<lambda>s. if s = str_of ''GET'' \<or> s = str_of ''POST'' then Some s else None),
      HttpVersion = (\<lambda>s. if s = str_of ''HTTP/1.1'' then Some s else None),
      HttpScheme = (\<lambda>s. if s = str_of ''http'' \<or> s = str_of ''https'' then Some s else None),
      str_upper = ascii_upper,
      str_lower = ascii_lower,
      a2b_base64 = a2b_standard\<rparr>"

definition example_event :: event where
  "example_event =
     \<lparr>isBase64Encoded = Some False,
      body = Some None,
      httpMethod = Some (str_of ''GET''),
      requestContext = Some \<lparr>protocol = Some (str_of ''HTTP/1.1''), domainName = None\<rparr>,
      path = Some (str_of ''/hello''),
      multiValueQueryStringParameters = Some [],
      multiValueHeaders = Some []\<rparr>"

definition example_request :: "(str, str, str) LambdaRequest" where
  "example_request =
     \<lparr>req_body = [], req_method = str_of ''GET'', req_version = str_of ''HTTP/1.1'',
      req_uri = str_of ''/hello'', req_authority = None, req_queries = [], req_headers = [],
      req_scheme = None, res_fur = None\<rparr>"

text \<open>
  A routing table with one route, \<open>/\<close>, to a handler that answers 200 with the
  body \<open>ok\<close>; the inherited part of the default handler does nothing.
\<close>

definition example_handler :: "(str, str, str) handler" where
  "example_handler =
     \<lparr>handler_before = (\<lambda>rq. (Inr (), rq)),
      handler_rest = (\<lambda>rq.
        case LambdaRequest_write_response ascii_lower rq 200 None of
          Inl e \<Rightarrow> (Inl e, rq)
        | Inr (response, rq') \<Rightarrow>
            (Inr (), rq'\<lparr>res_fur :=
               Some (LambdaResponse_finish (response\<lparr>body_chunks := [[0x6F, 0x6B]]\<rparr>))\<rparr>))\<rparr>"

definition example_resolve :: "str \<Rightarrow> (str, str, str) handler option" where
  "example_resolve p = (if p = str_of ''/'' then Some example_handler else None)"

definition example_inherited :: "(str, str, str) action" where
  "example_inherited rq = (Inr (), rq)"











section \<open>The codecs invert each other\<close>

subsection \<open>UTF-8: encoding what was decoded\<close>

lemma byte_of_unat: "unat (b::byte) = n \<Longrightarrow> of_nat n = b"
  by auto

lemma sextet_split:
  "l < (64::nat) \<Longrightarrow> (x * 64 + l) div 64 = x"
  "l < (64::nat) \<Longrightarrow> (x * 64 + l) mod 64 = l"
  by simp_all

lemma enc1: "unat b0 < 128 \<Longrightarrow> utf8_encode_char (unat b0) = Some [b0]"
  by (simp add: utf8_encode_char_def)

lemma enc2: 
  assumes a: "194 \<le> unat b0" "unat b0 < 224" "is_continuation b1"
  shows "utf8_encode_char ((unat b0 - 192) * 64 + (unat b1 - 128)) = Some [b0, b1]"
proof -
  define h where "h = unat b0 - 192"
  define l where "l = unat b1 - 128"
  define cp where "cp = h * 64 + l"
  have hl: "2 \<le> h" "h < 32" "l < 64" "unat b0 = 192 + h" "unat b1 = 128 + l"
    using a by (auto simp: h_def l_def is_continuation_def)
  have d: "cp div 64 = h" "cp mod 64 = l"
    unfolding cp_def using hl(3) by (simp_all only: sextet_split)
  have r: "\<not> cp < 128" "cp < 2048" using hl unfolding cp_def by auto
  have w: "of_nat (192 + cp div 64) = b0" "of_nat (128 + cp mod 64) = b1"
    unfolding d by (rule byte_of_unat, rule hl)+
  have "utf8_encode_char cp = Some [b0, b1]"
    unfolding utf8_encode_char_def w using r by (simp only: if_True if_False)
  then show ?thesis unfolding cp_def h_def l_def .
qed

lemma enc3:
  assumes a: "224 \<le> unat b0" "unat b0 < 240" "is_continuation b1" "is_continuation b2"
    and c: "2048 \<le> (unat b0 - 224) * 4096 + (unat b1 - 128) * 64 + (unat b2 - 128)"
      "\<not> (55296 \<le> (unat b0 - 224) * 4096 + (unat b1 - 128) * 64 + (unat b2 - 128)
          \<and> (unat b0 - 224) * 4096 + (unat b1 - 128) * 64 + (unat b2 - 128) < 57344)"
  shows "utf8_encode_char ((unat b0 - 224) * 4096 + (unat b1 - 128) * 64 + (unat b2 - 128))
         = Some [b0, b1, b2]"
proof -
  define h where "h = unat b0 - 224"
  define m where "m = unat b1 - 128"
  define l where "l = unat b2 - 128"
  define cp where "cp = h * 4096 + m * 64 + l"
  have hl: "h < 16" "m < 64" "l < 64" "unat b0 = 224 + h" "unat b1 = 128 + m" "unat b2 = 128 + l"
    using a by (auto simp: h_def l_def m_def is_continuation_def)
  have e: "cp = (h * 64 + m) * 64 + l" unfolding cp_def by simp
  have d0: "cp div 64 = h * 64 + m" "cp mod 64 = l"
    unfolding e using hl(3) by (simp_all only: sextet_split)
  have d1: "(cp div 64) mod 64 = m" "(cp div 64) div 64 = h"
    unfolding d0 using hl(2) by (simp_all only: sextet_split)
  have d2: "cp div 4096 = h"
    using d1(2) by (simp add: div_mult2_eq[of cp 64 64, simplified])
  have c': "2048 \<le> cp" "\<not> (55296 \<le> cp \<and> cp < 57344)"
    using c unfolding cp_def h_def m_def l_def .
  have u: "cp < 65536" using hl(1-3) unfolding cp_def by simp
  have r: "\<not> cp < 128" "\<not> cp < 2048" "cp < 65536" "\<not> (55296 \<le> cp \<and> cp < 57344)"
    using c' u by simp_all
  have w: "of_nat (224 + cp div 4096) = b0" "of_nat (128 + (cp div 64) mod 64) = b1"
      "of_nat (128 + cp mod 64) = b2"
    unfolding d0(2) d1 d2 by (rule byte_of_unat, rule hl)+
  have "utf8_encode_char cp = Some [b0, b1, b2]"
    unfolding utf8_encode_char_def w using r by (simp only: if_True if_False)
  then show ?thesis unfolding cp_def h_def m_def l_def .
qed

lemma enc4:
  assumes a: "240 \<le> unat b0" "unat b0 < 245" "is_continuation b1" "is_continuation b2"
      "is_continuation b3"
    and c: "65536 \<le> (unat b0 - 240) * 262144 + (unat b1 - 128) * 4096
                      + (unat b2 - 128) * 64 + (unat b3 - 128)"
      "(unat b0 - 240) * 262144 + (unat b1 - 128) * 4096
                      + (unat b2 - 128) * 64 + (unat b3 - 128) < 1114112"
  shows "utf8_encode_char ((unat b0 - 240) * 262144 + (unat b1 - 128) * 4096
                      + (unat b2 - 128) * 64 + (unat b3 - 128))
         = Some [b0, b1, b2, b3]"
proof -
  define h where "h = unat b0 - 240"
  define m where "m = unat b1 - 128"
  define k where "k = unat b2 - 128"
  define l where "l = unat b3 - 128"
  define cp where "cp = h * 262144 + m * 4096 + k * 64 + l"
  have hl: "h < 5" "m < 64" "k < 64" "l < 64" "unat b0 = 240 + h" "unat b1 = 128 + m"
      "unat b2 = 128 + k" "unat b3 = 128 + l"
    using a by (auto simp: h_def l_def m_def k_def is_continuation_def)
  have e: "cp = ((h * 64 + m) * 64 + k) * 64 + l" unfolding cp_def by simp
  have d0: "cp div 64 = (h * 64 + m) * 64 + k" "cp mod 64 = l"
    unfolding e using hl(4) by (simp_all only: sextet_split)
  have d1: "(cp div 64) mod 64 = k" "(cp div 64) div 64 = h * 64 + m"
    unfolding d0 using hl(3) by (simp_all only: sextet_split)
  have d2: "((cp div 64) div 64) mod 64 = m" "((cp div 64) div 64) div 64 = h"
    unfolding d1 using hl(2) by (simp_all only: sextet_split)
  have d3: "cp div 4096 = (cp div 64) div 64"
    by (simp add: div_mult2_eq[of cp 64 64, simplified])
  have d4: "cp div 262144 = ((cp div 64) div 64) div 64"
    unfolding d3[symmetric] by (simp add: div_mult2_eq[of cp 4096 64, simplified])
  have c': "65536 \<le> cp" "cp < 1114112"
    using c unfolding cp_def h_def m_def l_def k_def .
  have r: "\<not> cp < 128" "\<not> cp < 2048" "\<not> cp < 65536" "cp < 1114112"
    using c' by simp_all
  have w: "of_nat (240 + cp div 262144) = b0" "of_nat (128 + (cp div 4096) mod 64) = b1"
      "of_nat (128 + (cp div 64) mod 64) = b2" "of_nat (128 + cp mod 64) = b3"
    unfolding d4 d3 d2 d1(1) d0(2) by (rule byte_of_unat, rule hl)+
  have "utf8_encode_char cp = Some [b0, b1, b2, b3]"
    unfolding utf8_encode_char_def w using r by (simp only: if_True if_False)
  then show ?thesis unfolding cp_def h_def m_def l_def k_def .
qed

lemma utf8_roundtrip: "utf8_decode bs = Some s \<Longrightarrow> utf8_encode s = Some bs"
proof (induction bs arbitrary: s rule: utf8_decode.induct)
  case 1
  then show ?case by simp
next
  case (2 b0 bs)
  consider (one) "unat b0 < 128"
    | (two) "\<not> unat b0 < 128" "194 \<le> unat b0 \<and> unat b0 < 224"
    | (three) "\<not> unat b0 < 128" "\<not> (194 \<le> unat b0 \<and> unat b0 < 224)"
        "224 \<le> unat b0 \<and> unat b0 < 240"
    | (four) "\<not> unat b0 < 128" "\<not> (194 \<le> unat b0 \<and> unat b0 < 224)"
        "\<not> (224 \<le> unat b0 \<and> unat b0 < 240)" "240 \<le> unat b0 \<and> unat b0 < 245"
    | (bad) "\<not> unat b0 < 128" "\<not> (194 \<le> unat b0 \<and> unat b0 < 224)"
        "\<not> (224 \<le> unat b0 \<and> unat b0 < 240)" "\<not> (240 \<le> unat b0 \<and> unat b0 < 245)"
    by blast
  then show ?case
  proof cases
    case one
    with "2.prems" obtain t where t: "utf8_decode bs = Some t" "s = unat b0 # t"
      by auto
    from "2.IH"(1)[OF one t(1)] show ?thesis
      using t(2) one by (simp add: enc1)
  next
    case two
    with "2.prems" obtain b1 bs1 t where t: "bs = b1 # bs1" "is_continuation b1"
        "utf8_decode bs1 = Some t" "s = ((unat b0 - 192) * 64 + (unat b1 - 128)) # t"
      by (auto split: list.splits if_splits)
    from "2.IH"(2)[OF two t(1,2,3)] show ?thesis
      using t two by (simp add: enc2)
  next
    case three
    with "2.prems" obtain b1 b2 bs2 t where t: "bs = b1 # b2 # bs2"
        "is_continuation b1 \<and> is_continuation b2
         \<and> 2048 \<le> (unat b0 - 224) * 4096 + (unat b1 - 128) * 64 + (unat b2 - 128)
         \<and> \<not> (55296 \<le> (unat b0 - 224) * 4096 + (unat b1 - 128) * 64 + (unat b2 - 128)
          \<and> (unat b0 - 224) * 4096 + (unat b1 - 128) * 64 + (unat b2 - 128) < 57344)"
        "utf8_decode bs2 = Some t"
        "s = ((unat b0 - 224) * 4096 + (unat b1 - 128) * 64 + (unat b2 - 128)) # t"
      by (auto simp: Let_def split: list.splits if_splits)
    have ih: "utf8_encode t = Some bs2"
      using "2.IH"(3)[OF three t(1) refl refl _ t(3)] t(2) by (simp add: Let_def)
    show ?thesis
      using t three ih by (simp add: enc3)
  next
    case four
    with "2.prems" obtain b1 b2 b3 bs3 t where t: "bs = b1 # b2 # b3 # bs3"
        "is_continuation b1 \<and> is_continuation b2 \<and> is_continuation b3
         \<and> 65536 \<le> (unat b0 - 240) * 262144 + (unat b1 - 128) * 4096
                      + (unat b2 - 128) * 64 + (unat b3 - 128)
         \<and> (unat b0 - 240) * 262144 + (unat b1 - 128) * 4096
                      + (unat b2 - 128) * 64 + (unat b3 - 128) < 1114112"
        "utf8_decode bs3 = Some t"
        "s = ((unat b0 - 240) * 262144 + (unat b1 - 128) * 4096
                      + (unat b2 - 128) * 64 + (unat b3 - 128)) # t"
      by (auto simp: Let_def split: list.splits if_splits)
    have ih: "utf8_encode t = Some bs3"
      using "2.IH"(4)[OF four t(1) refl refl refl _ t(3)] t(2) by (simp add: Let_def)
    show ?thesis
      using t four ih by (simp add: enc4)
  next
    case bad
    with "2.prems" show ?thesis by simp
  qed
qed

subsection \<open>Base64: decoding what was encoded\<close>

lemma unat_b64_char:
  "unat (b64_char i) = (if i < 26 then 65 + i else if i < 52 then 71 + i
                        else if i < 62 then i - 4 else if i = 62 then 43 else 47)"
  unfolding b64_char_def by (simp add: unat_of_nat)

lemma b64_char_ascii: "unat (b64_char i) < 128"
  unfolding unat_b64_char by auto

lemma b64_value_char: "i < 64 \<Longrightarrow> b64_value (b64_char i) = Some i"
  unfolding b64_value_def unat_b64_char by auto

lemma b64_char_not_pad: "b64_char i \<noteq> 61"
proof
  assume "b64_char i = 61"
  then have "unat (b64_char i) = 61" by simp
  then show False unfolding unat_b64_char by (auto split: if_splits)
qed

lemma digit_split:
  "l < k \<Longrightarrow> (x * k + l) div k = (x::nat)"
  "l < k \<Longrightarrow> (x * k + l) mod k = (l::nat)"
  by simp_all

lemma sextets:
  fixes a b c :: nat
  assumes "a < 256" "b < 256" "c < 256"
  shows "a div 4 < 64" "(a mod 4) * 16 + b div 16 < 64" "(b mod 16) * 4 + c div 64 < 64"
    "c mod 64 < 64"
proof -
  have "a mod 4 < 4" "b div 16 < 16" "b mod 16 < 16" "c div 64 < 4"
    using assms by simp_all
  then show "(a mod 4) * 16 + b div 16 < 64" "(b mod 16) * 4 + c div 64 < 64" by linarith+
  show "a div 4 < 64" "c mod 64 < 64" using assms by simp_all
qed

lemma octets:
  fixes a b c :: nat
  assumes "b < 256" "c < 256"
  shows "(a div 4) * 4 + ((a mod 4) * 16 + b div 16) div 16 = a"
    "(((a mod 4) * 16 + b div 16) mod 16) * 16 + ((b mod 16) * 4 + c div 64) div 4 = b"
    "(((b mod 16) * 4 + c div 64) mod 4) * 64 + c mod 64 = c"
proof -
  have l: "b div 16 < 16" "c div 64 < 4" using assms by simp_all
  show "(a div 4) * 4 + ((a mod 4) * 16 + b div 16) div 16 = a"
    unfolding digit_split(1)[OF l(1)] by simp
  show "(((a mod 4) * 16 + b div 16) mod 16) * 16 + ((b mod 16) * 4 + c div 64) div 4 = b"
    unfolding digit_split(2)[OF l(1)] digit_split(1)[OF l(2)] by simp
  show "(((b mod 16) * 4 + c div 64) mod 4) * 64 + c mod 64 = c"
    unfolding digit_split(2)[OF l(2)] by simp
qed

lemma decode_quad:
  assumes "s0 < 64" "s1 < 64" "s2 < 64" "s3 < 64"
  shows "standard_b64decode (b64_char s0 # b64_char s1 # b64_char s2 # b64_char s3 # rest) =
     map_option ((@) [of_nat (s0 * 4 + s1 div 16), of_nat ((s1 mod 16) * 16 + s2 div 4),
                      of_nat ((s2 mod 4) * 64 + s3)]) (standard_b64decode rest)"
  by (simp add: b64_value_char[OF assms(1)] b64_value_char[OF assms(2)]
      b64_value_char[OF assms(3)] b64_value_char[OF assms(4)] b64_char_not_pad)

lemma decode_pad1:
  assumes "s0 < 64" "s1 < 64" "s2 < 64" "s2 mod 4 = 0"
  shows "standard_b64decode [b64_char s0, b64_char s1, b64_char s2, 61] =
     Some [of_nat (s0 * 4 + s1 div 16), of_nat ((s1 mod 16) * 16 + s2 div 4)]"
  by (simp add: b64_value_char[OF assms(1)] b64_value_char[OF assms(2)]
      b64_value_char[OF assms(3)] assms(4) b64_char_not_pad)

lemma decode_pad2:
  assumes "s0 < 64" "s1 < 64" "s1 mod 16 = 0"
  shows "standard_b64decode [b64_char s0, b64_char s1, 61, 61] =
     Some [of_nat (s0 * 4 + s1 div 16)]"
  by (simp add: b64_value_char[OF assms(1)] b64_value_char[OF assms(2)] assms(3))

lemma b64_roundtrip: "standard_b64decode (b64encode bs) = Some bs"
proof (induction bs rule: b64encode.induct)
  case 1
  then show ?case by simp
next
  case (2 a)
  have u: "unat a < 256" using unsigned_less[of a] by simp
  have s: "unat a div 4 < 64" "unat a mod 4 * 16 < 64" "(unat a mod 4 * 16) mod 16 = 0"
    using u by simp_all
  have "standard_b64decode (b64encode [a]) =
      Some [of_nat (unat a div 4 * 4 + (unat a mod 4 * 16) div 16)]"
    unfolding b64encode.simps by (rule decode_pad2[OF s])
  also have "unat a div 4 * 4 + (unat a mod 4 * 16) div 16 = unat a"
    by simp
  finally show ?case by simp
next
  case (3 a b)
  have u: "unat a < 256" "unat b < 256" using unsigned_less[of a] unsigned_less[of b] by simp_all
  have z: "(0::nat) < 256" by simp
  have s: "unat a div 4 < 64" "unat a mod 4 * 16 + unat b div 16 < 64"
      "unat b mod 16 * 4 < 64" "(unat b mod 16 * 4) mod 4 = 0"
    using sextets(1-3)[OF u z] by simp_all
  have "standard_b64decode (b64encode [a, b]) =
      Some [of_nat (unat a div 4 * 4 + (unat a mod 4 * 16 + unat b div 16) div 16),
            of_nat ((unat a mod 4 * 16 + unat b div 16) mod 16 * 16 + (unat b mod 16 * 4) div 4)]"
    unfolding b64encode.simps by (rule decode_pad1[OF s])
  also have "unat a div 4 * 4 + (unat a mod 4 * 16 + unat b div 16) div 16 = unat a"
    by (rule octets(1)[OF u(2) z])
  also have "(unat a mod 4 * 16 + unat b div 16) mod 16 * 16 + (unat b mod 16 * 4) div 4 = unat b"
    using octets(2)[OF u(2) z, of "unat a"] by simp
  finally show ?case by simp
next
  case (4 a b c rest)
  have u: "unat a < 256" "unat b < 256" "unat c < 256"
    using unsigned_less[of a] unsigned_less[of b] unsigned_less[of c] by simp_all
  have "standard_b64decode (b64encode (a # b # c # rest)) =
      map_option ((@) [of_nat (unat a div 4 * 4 + (unat a mod 4 * 16 + unat b div 16) div 16),
            of_nat ((unat a mod 4 * 16 + unat b div 16) mod 16 * 16
                    + (unat b mod 16 * 4 + unat c div 64) div 4),
            of_nat ((unat b mod 16 * 4 + unat c div 64) mod 4 * 64 + unat c mod 64)])
        (standard_b64decode (b64encode rest))"
    using decode_quad[OF sextets[OF u], of "b64encode rest"] by simp
  also have "\<dots> = Some (a # b # c # rest)"
    unfolding octets[OF u(2,3)] "4.IH" by simp
  finally show ?case .
qed

section \<open>The grouping loop of translate\<close>

lemma set_first_seen: "set (first_seen xs) = set xs"
  by (induction xs rule: first_seen.induct) auto

lemma distinct_first_seen: "distinct (first_seen xs)"
  by (induction xs rule: first_seen.induct) (auto simp: set_first_seen)

lemma values_of_Cons:
  "values_of k ((n, v) # d) = (if n = k then v # values_of k d else values_of k d)"
  by (simp add: values_of_def)

lemma step_skip: "header_lists_step hl (str_of ''content-length'', v) = hl"
  by (simp add: header_lists_step_def)

lemma step_known:
  "n \<noteq> str_of ''content-length'' \<Longrightarrow> n \<in> set (map fst hl) \<Longrightarrow>
   header_lists_step hl (n, v) = map (\<lambda>(k, vs). if k = n then (k, vs @ [v]) else (k, vs)) hl"
  by (simp add: header_lists_step_def)

lemma step_new:
  assumes "n \<noteq> str_of ''content-length''" "n \<notin> set (map fst hl)"
  shows "header_lists_step hl (n, v) = hl @ [(n, [v])]"
proof -
  have "map (\<lambda>(k, vs). if k = n then (k, vs @ [v]) else (k, vs)) hl = hl"
    using assms(2) by (induction hl) auto
  then show ?thesis using assms by (simp add: header_lists_step_def)
qed

lemma foldl_skip:
  "foldl header_lists_step acc d =
   foldl header_lists_step acc (filter (\<lambda>p. fst p \<noteq> str_of ''content-length'') d)"
proof (induction d arbitrary: acc)
  case Nil
  then show ?case by simp
next
  case (Cons p d)
  obtain n v where p: "p = (n, v)" by (cases p)
  show ?case using Cons.IH by (simp add: p step_skip)
qed

lemma foldl_grouped:
  assumes "\<forall>p \<in> set d. fst p \<noteq> str_of ''content-length''"
  shows "foldl header_lists_step acc d =
     map (\<lambda>(k, vs). (k, vs @ values_of k d)) acc
     @ map (\<lambda>k. (k, values_of k d))
         (first_seen (filter (\<lambda>k. k \<notin> set (map fst acc)) (map fst d)))"
  using assms
proof (induction d arbitrary: acc)
  case Nil
  then show ?case by (simp add: values_of_def)
next
  case (Cons p d)
  obtain n v where p: "p = (n, v)" by (cases p)
  have n: "n \<noteq> str_of ''content-length''" using Cons.prems p by simp
  have d: "\<forall>p \<in> set d. fst p \<noteq> str_of ''content-length''" using Cons.prems by simp
  show ?case
  proof (cases "n \<in> set (map fst acc)")
    case True
    let ?acc = "map (\<lambda>(k, vs). if k = n then (k, vs @ [v]) else (k, vs)) acc"
    have keys: "map fst ?acc = map fst acc" by (induction acc) auto
    have "foldl header_lists_step acc (p # d) = foldl header_lists_step ?acc d"
      by (simp add: p step_known[OF n True])
    also have "\<dots> = map (\<lambda>(k, vs). (k, vs @ values_of k d)) ?acc
        @ map (\<lambda>k. (k, values_of k d))
            (first_seen (filter (\<lambda>k. k \<notin> set (map fst acc)) (map fst d)))"
      using Cons.IH[OF d, of ?acc] by (simp only: keys)
    also have "map (\<lambda>(k, vs). (k, vs @ values_of k d)) ?acc
        = map (\<lambda>(k, vs). (k, vs @ values_of k (p # d))) acc"
      by (induction acc) (auto simp: p values_of_Cons)
    also have "map (\<lambda>k. (k, values_of k d))
            (first_seen (filter (\<lambda>k. k \<notin> set (map fst acc)) (map fst d)))
        = map (\<lambda>k. (k, values_of k (p # d)))
            (first_seen (filter (\<lambda>k. k \<notin> set (map fst acc)) (map fst (p # d))))"
      using True by (auto simp: p values_of_Cons set_first_seen)
    finally show ?thesis .
  next
    case False
    let ?acc = "acc @ [(n, [v])]"
    have f: "filter (\<lambda>k. k \<notin> set (map fst ?acc)) (map fst d)
        = filter (\<lambda>y. y \<noteq> n) (filter (\<lambda>k. k \<notin> set (map fst acc)) (map fst d))"
      by (auto intro: filter_cong)
    have "foldl header_lists_step acc (p # d) = foldl header_lists_step ?acc d"
      by (simp add: p step_new[OF n False])
    also have "\<dots> = map (\<lambda>(k, vs). (k, vs @ values_of k d)) ?acc
        @ map (\<lambda>k. (k, values_of k d))
            (first_seen (filter (\<lambda>y. y \<noteq> n)
               (filter (\<lambda>k. k \<notin> set (map fst acc)) (map fst d))))"
      using Cons.IH[OF d, of ?acc] by (simp only: f)
    also have "map (\<lambda>(k, vs). (k, vs @ values_of k d)) ?acc
        = map (\<lambda>(k, vs). (k, vs @ values_of k (p # d))) acc @ [(n, values_of n (p # d))]"
      using False by (force simp: p values_of_Cons)
    also have "map (\<lambda>k. (k, values_of k d))
            (first_seen (filter (\<lambda>y. y \<noteq> n)
               (filter (\<lambda>k. k \<notin> set (map fst acc)) (map fst d))))
        = map (\<lambda>k. (k, values_of k (p # d)))
            (first_seen (filter (\<lambda>y. y \<noteq> n)
               (filter (\<lambda>k. k \<notin> set (map fst acc)) (map fst d))))"
      by (auto simp: p values_of_Cons set_first_seen)
    finally show ?thesis using False by (simp add: p)
  qed
qed

lemma header_lists_of_grouped:
  "header_lists_of d =
     map (\<lambda>k. (k, values_of k d))
       (first_seen (filter (\<lambda>k. k \<noteq> str_of ''content-length'') (map fst d)))"
proof -
  let ?d = "filter (\<lambda>p. fst p \<noteq> str_of ''content-length'') d"
  have "header_lists_of d = foldl header_lists_step [] ?d"
    unfolding header_lists_of_def items_def by (rule foldl_skip)
  also have "\<dots> = map (\<lambda>k. (k, values_of k ?d)) (first_seen (map fst ?d))"
    using foldl_grouped[of ?d "[]"] by simp
  also have "map fst ?d = filter (\<lambda>k. k \<noteq> str_of ''content-length'') (map fst d)"
    by (induction d) auto
  also have "map (\<lambda>k. (k, values_of k ?d))
       (first_seen (filter (\<lambda>k. k \<noteq> str_of ''content-length'') (map fst d)))
     = map (\<lambda>k. (k, values_of k d))
       (first_seen (filter (\<lambda>k. k \<noteq> str_of ''content-length'') (map fst d)))"
  proof -
    have "values_of k ?d = values_of k d" if "k \<noteq> str_of ''content-length''" for k
      using that unfolding values_of_def by (induction d) auto
    then show ?thesis by (auto simp: set_first_seen)
  qed
  finally show ?thesis .
qed

section \<open>The response lifecycle\<close>

lemma utf8_decode_ascii:
  "list_all (\<lambda>b. unat b < 128) bs \<Longrightarrow> utf8_decode bs = Some (map unat bs)"
  by (induction bs) auto

lemma b64encode_ascii: "list_all (\<lambda>b. unat b < 128) (b64encode bs)"
  by (induction bs rule: b64encode.induct) (simp_all add: b64_char_ascii)

lemma ascii_encode_unat:
  "list_all (\<lambda>b. unat b < 128) (bs :: bytes) \<Longrightarrow> ascii_encode (map unat bs) = Some bs"
  by (simp add: ascii_encode_def list.pred_map comp_def map_idI)

lemma write_all_result:
  "write_all r ds = Inr (r\<lparr>body_chunks := body_chunks r @ filter (\<lambda>d. d \<noteq> []) ds\<rparr>)"
  by (induction ds arbitrary: r) (auto simp: bind_def LambdaResponse_write_def)

lemma concat_nonempty: "concat (filter (\<lambda>d. d \<noteq> []) ds) = concat ds"
  by (induction ds) auto

lemma translate_finished:
  assumes "finished r \<or> \<not> debug"
  shows "LambdaResponse_translate debug r =
     Inr \<lparr>out_isBase64Encoded = (utf8_decode (concat (body_chunks r)) = None),
          out_statusCode = status_code r,
          out_multiValueHeaders = header_lists_of (headers r),
          out_body = (case utf8_decode (concat (body_chunks r)) of
                        Some body_str \<Rightarrow> body_str
                      | None \<Rightarrow> map unat (b64encode (concat (body_chunks r))))\<rparr>"
  using assms
  by (auto simp: LambdaResponse_translate_def utf8_decode_ascii[OF b64encode_ascii]
      split: option.splits)

text \<open>
  C2 (as the code has it). \<open>write\<close> never fails, whether or not \<open>finish\<close> has been
  called: an empty fragment leaves the response unchanged, and a non-empty fragment is
  appended at the end of the fragment sequence, before and after \<open>finish\<close> alike.
\<close>

theorem write_appends_regardless_of_finished:
  "LambdaResponse_write r data =
     Inr (if data = [] then r else r\<lparr>body_chunks := body_chunks r @ [data]\<rparr>)"
  by (simp add: LambdaResponse_write_def)

theorem write_appends_regardless_of_finished_witness:
  "LambdaResponse_write (LambdaResponse_finish (LambdaResponse_init 200 [])) [0x68, 0x69] =
     Inr \<lparr>status_code = 200, headers = [], body_chunks = [[0x68, 0x69]], finished = True\<rparr>
   \<and> LambdaResponse_write (LambdaResponse_init 200 []) [] = Inr (LambdaResponse_init 200 [])"
  using write_appends_regardless_of_finished
      [of "LambdaResponse_finish (LambdaResponse_init 200 [])" "[0x68, 0x69]"]
    write_appends_regardless_of_finished [of "LambdaResponse_init 200 []" "[]"]
  by (simp add: LambdaResponse_finish_def LambdaResponse_init_def)

text \<open>
  C2 as stated fails: after \<open>finish\<close>, a \<open>write\<close> of the fragment \<open>b"hi"\<close> is not
  an error; it returns normally and the fragment is in the sequence.
\<close>

theorem write_after_finish_counterexample:
  "finished (LambdaResponse_finish (LambdaResponse_init 200 []))
   \<and> \<not> isl (LambdaResponse_write (LambdaResponse_finish (LambdaResponse_init 200 [])) [0x68, 0x69])
   \<and> LambdaResponse_write (LambdaResponse_finish (LambdaResponse_init 200 [])) [0x68, 0x69] =
       Inr \<lparr>status_code = 200, headers = [], body_chunks = [[0x68, 0x69]], finished = True\<rparr>"
  by (simp add: LambdaResponse_write_def LambdaResponse_finish_def LambdaResponse_init_def)




text \<open>
  C3. A sequence of \<open>write\<close> calls leaves chunks whose concatenation is that of the
  fragments in call order. For every finished response \<open>translate\<close> returns an
  envelope: if the concatenated bytes are valid UTF-8, the flag is false, the body is the
  decoded text, and encoding the body gives the bytes back; otherwise the flag is true,
  the body is the base64 text of the bytes, and its standard decoding gives the bytes back.
\<close>

theorem translate_body_round_trip:
  "(\<exists>r'. write_all r0 ds = Inr r'
        \<and> concat (body_chunks r') = concat (body_chunks r0) @ concat ds)
   \<and> (finished r \<longrightarrow>
        (\<exists>env. LambdaResponse_translate debug r = Inr env
           \<and> (case utf8_decode (concat (body_chunks r)) of
                Some body_str \<Rightarrow>
                  \<not> out_isBase64Encoded env \<and> out_body env = body_str
                  \<and> utf8_encode (out_body env) = Some (concat (body_chunks r))
              | None \<Rightarrow>
                  out_isBase64Encoded env
                  \<and> out_body env = map unat (b64encode (concat (body_chunks r)))
                  \<and> Option.bind (ascii_encode (out_body env)) standard_b64decode
                      = Some (concat (body_chunks r)))))"
proof (intro conjI impI)
  show "\<exists>r'. write_all r0 ds = Inr r'
        \<and> concat (body_chunks r') = concat (body_chunks r0) @ concat ds"
    by (simp add: write_all_result concat_nonempty)
next
  assume f: "finished r"
  show "\<exists>env. LambdaResponse_translate debug r = Inr env
           \<and> (case utf8_decode (concat (body_chunks r)) of
                Some body_str \<Rightarrow>
                  \<not> out_isBase64Encoded env \<and> out_body env = body_str
                  \<and> utf8_encode (out_body env) = Some (concat (body_chunks r))
              | None \<Rightarrow>
                  out_isBase64Encoded env
                  \<and> out_body env = map unat (b64encode (concat (body_chunks r)))
                  \<and> Option.bind (ascii_encode (out_body env)) standard_b64decode
                      = Some (concat (body_chunks r)))"
  proof (cases "utf8_decode (concat (body_chunks r))")
    case None
    then show ?thesis
      by (simp add: translate_finished[OF disjI1[OF f]] ascii_encode_unat[OF b64encode_ascii]
          b64_roundtrip)
  next
    case (Some body_str)
    then show ?thesis
      by (simp add: translate_finished[OF disjI1[OF f]] utf8_roundtrip)
  qed
qed

theorem translate_body_round_trip_witness:
  "(\<exists>r'. write_all (LambdaResponse_init 200 []) [[0xFF], [], [0xFE]] = Inr r'
         \<and> concat (body_chunks r') = [0xFF, 0xFE])
   \<and> finished \<lparr>status_code = 200, headers = [], body_chunks = [[0xFF], [0xFE]], finished = True\<rparr>
   \<and> (\<exists>env. LambdaResponse_translate True
             \<lparr>status_code = 200, headers = [], body_chunks = [[0xFF], [0xFE]], finished = True\<rparr>
            = Inr env
          \<and> out_isBase64Encoded env \<and> out_body env = str_of ''//4=''
          \<and> Option.bind (ascii_encode (out_body env)) standard_b64decode = Some [0xFF, 0xFE])"
  using translate_body_round_trip
      [of "LambdaResponse_init 200 []" "[[0xFF], [], [0xFE]]"
          "\<lparr>status_code = 200, headers = [], body_chunks = [[0xFF], [0xFE]], finished = True\<rparr>"
          True]
  by (simp add: LambdaResponse_init_def b64_char_def str_of_def)

section \<open>Headers across the translation boundary\<close>

lemma values_of_append: "values_of k (xs @ ys) = values_of k xs @ values_of k ys"
  by (simp add: values_of_def)

lemma values_of_folded:
  "values_of k (FrozenTolerantMagicDict lower (flatten mvh)) =
     concat (map snd (filter (\<lambda>(n, vs). lower n = k) mvh))"
proof (induction mvh)
  case Nil
  then show ?case by (simp add: values_of_def FrozenTolerantMagicDict_def flatten_def)
next
  case (Cons p mvh)
  obtain n vs where p: "p = (n, vs)" by (cases p)
  have one: "values_of k (map (\<lambda>v. (lower n, v)) vs) = (if lower n = k then vs else [])"
    by (induction vs) (auto simp: values_of_def)
  have "FrozenTolerantMagicDict lower (flatten (p # mvh))
      = map (\<lambda>v. (lower n, v)) vs @ FrozenTolerantMagicDict lower (flatten mvh)"
    by (simp add: FrozenTolerantMagicDict_def flatten_def p comp_def)
  then show ?case
    using Cons.IH by (simp only: values_of_append one p) simp
qed

lemma get_all_values_of: "get_all lower d name = values_of (lower name) d"
  unfolding get_all_def values_of_def
  by (rule arg_cong[where f="map snd"]) (auto intro: filter_cong)

lemma concat_unique_key:
  assumes "distinct (map (\<lambda>p. lower (fst p)) mvh)" "(n, vs) \<in> set mvh"
  shows "concat (map snd (filter (\<lambda>(a, ws). lower a = lower n) mvh)) = vs"
  using assms
proof (induction mvh)
  case Nil
  then show ?case by simp
next
  case (Cons p mvh)
  obtain a ws where p: "p = (a, ws)" by (cases p)
  show ?case
  proof (cases "(n, vs) = p")
    case True
    have "filter (\<lambda>(a, ws). lower a = lower n) mvh = []"
      using Cons.prems(1) True by (auto simp: filter_empty_conv p image_iff)
    then show ?thesis using True by (simp add: p)
  next
    case False
    then have m: "(n, vs) \<in> set mvh" using Cons.prems(2) by simp
    then have "lower a \<noteq> lower n" using Cons.prems(1) by (force simp: p image_iff)
    then show ?thesis using Cons.IH m Cons.prems(1) by (simp add: p)
  qed
qed

lemma map_of_grouped:
  "map_of (map (\<lambda>k. (k, f k)) ks) k = (if k \<in> set ks then Some (f k) else None)"
  by (induction ks) auto

lemma keys_folded:
  "map fst (FrozenTolerantMagicDict lower hs) = map (\<lambda>p. lower (fst p)) hs"
  by (induction hs) (auto simp: FrozenTolerantMagicDict_def)

lemma values_of_folded_pairs:
  "(n, v) \<in> set hs \<Longrightarrow> v \<in> set (values_of (lower n) (FrozenTolerantMagicDict lower hs))"
  by (induction hs) (auto simp: FrozenTolerantMagicDict_def values_of_def)

text \<open>
  C7. For every finished response whose headers the handler gave as the pairs \<open>hs\<close>
  (the container folds the names), \<open>translate\<close> returns an envelope in which
  \<open>content-length\<close> is no key of \<open>multiValueHeaders\<close>: the keys are exactly the
  folded names other than \<open>content-length\<close>, and every other header's value is in
  the list of its name.
\<close>

theorem content_length_dropped:
  assumes "finished r" and "headers r = FrozenTolerantMagicDict lower hs"
  shows "\<exists>env. LambdaResponse_translate debug r = Inr env
     \<and> str_of ''content-length'' \<notin> set (map fst (out_multiValueHeaders env))
     \<and> set (map fst (out_multiValueHeaders env))
         = {lower n | n. n \<in> fst ` set hs \<and> lower n \<noteq> str_of ''content-length''}
     \<and> (\<forall>(n, v) \<in> set hs. lower n \<noteq> str_of ''content-length'' \<longrightarrow>
           (\<exists>vs. map_of (out_multiValueHeaders env) (lower n) = Some vs \<and> v \<in> set vs))"
proof -
  let ?d = "FrozenTolerantMagicDict lower hs"
  let ?ks = "first_seen (filter (\<lambda>k. k \<noteq> str_of ''content-length'') (map fst ?d))"
  let ?env = "\<lparr>out_isBase64Encoded = (utf8_decode (concat (body_chunks r)) = None),
          out_statusCode = status_code r,
          out_multiValueHeaders = header_lists_of (headers r),
          out_body = (case utf8_decode (concat (body_chunks r)) of
                        Some body_str \<Rightarrow> body_str
                      | None \<Rightarrow> map unat (b64encode (concat (body_chunks r))))\<rparr>"
  have t: "LambdaResponse_translate debug r = Inr ?env"
    by (rule translate_finished[OF disjI1[OF assms(1)]])
  have h: "out_multiValueHeaders ?env = map (\<lambda>k. (k, values_of k ?d)) ?ks"
    by (simp add: assms(2) header_lists_of_grouped)
  have keys: "map fst (out_multiValueHeaders ?env) = ?ks"
    unfolding h by (simp add: comp_def)
  have ks: "set ?ks = {lower n | n. n \<in> fst ` set hs \<and> lower n \<noteq> str_of ''content-length''}"
    by (auto simp: set_first_seen keys_folded)
  have a: "str_of ''content-length'' \<notin> set (map fst (out_multiValueHeaders ?env))"
    unfolding keys by (simp add: set_first_seen)
  have b: "\<forall>(n, v) \<in> set hs. lower n \<noteq> str_of ''content-length'' \<longrightarrow>
           (\<exists>vs. map_of (out_multiValueHeaders ?env) (lower n) = Some vs \<and> v \<in> set vs)"
  proof (clarify)
    fix n v
    assume m: "(n, v) \<in> set hs" and n: "lower n \<noteq> str_of ''content-length''"
    have "lower n \<in> set ?ks" unfolding ks using m n by force
    then have "map_of (out_multiValueHeaders ?env) (lower n) = Some (values_of (lower n) ?d)"
      unfolding h by (simp only: map_of_grouped if_True)
    then show "\<exists>vs. map_of (out_multiValueHeaders ?env) (lower n) = Some vs \<and> v \<in> set vs"
      using values_of_folded_pairs[OF m, of lower] by simp
  qed
  show ?thesis
    using t a b keys ks by (intro exI[of _ ?env] conjI) simp_all
qed

theorem content_length_dropped_witness:
  "finished \<lparr>status_code = 200,
      headers = FrozenTolerantMagicDict ascii_lower
        [(str_of ''Content-Length'', str_of ''5''), (str_of ''X-A'', str_of ''1'')],
      body_chunks = [], finished = True\<rparr>
   \<and> (\<exists>env. LambdaResponse_translate True \<lparr>status_code = 200,
          headers = FrozenTolerantMagicDict ascii_lower
            [(str_of ''Content-Length'', str_of ''5''), (str_of ''X-A'', str_of ''1'')],
          body_chunks = [], finished = True\<rparr> = Inr env
        \<and> str_of ''content-length'' \<notin> set (map fst (out_multiValueHeaders env))
        \<and> (\<exists>vs. map_of (out_multiValueHeaders env) (str_of ''x-a'') = Some vs
               \<and> str_of ''1'' \<in> set vs))"
  using content_length_dropped
    [of "\<lparr>status_code = 200,
      headers = FrozenTolerantMagicDict ascii_lower
        [(str_of ''Content-Length'', str_of ''5''), (str_of ''X-A'', str_of ''1'')],
      body_chunks = [], finished = True\<rparr>" ascii_lower
      "[(str_of ''Content-Length'', str_of ''5''), (str_of ''X-A'', str_of ''1'')]" True]
  by (auto simp: ascii_lower_def str_of_def)

text \<open>
  C4 (as the code has it). Flattening a name-to-list map into the container keeps the
  order: \<open>get_all\<close> with any casing of a name returns the values of all keys that fold
  to the same name, in the map's order. The grouping of \<open>translate\<close> gives, for the
  distinct folded names other than \<open>content-length\<close> in first-seen order, those same
  values in the same order. When no two keys fold to the same name, \<open>get_all\<close>
  returns exactly the list of the key, and so does the translated map for every key other
  than \<open>content-length\<close> that has a value.
\<close>

theorem flatten_then_translate_keeps_order:
  "get_all lower (FrozenTolerantMagicDict lower (flatten mvh)) name
     = concat (map snd (filter (\<lambda>(n, vs). lower n = lower name) mvh))
   \<and> header_lists_of (FrozenTolerantMagicDict lower (flatten mvh))
     = map (\<lambda>k. (k, concat (map snd (filter (\<lambda>(n, vs). lower n = k) mvh))))
         (first_seen (filter (\<lambda>k. k \<noteq> str_of ''content-length'')
            (map fst (FrozenTolerantMagicDict lower (flatten mvh)))))
   \<and> (distinct (map (\<lambda>p. lower (fst p)) mvh) \<longrightarrow>
        (\<forall>(n, vs) \<in> set mvh.
           (lower name = lower n \<longrightarrow>
              get_all lower (FrozenTolerantMagicDict lower (flatten mvh)) name = vs)
           \<and> (lower n \<noteq> str_of ''content-length'' \<and> vs \<noteq> [] \<longrightarrow>
                map_of (header_lists_of (FrozenTolerantMagicDict lower (flatten mvh))) (lower n)
                  = Some vs)))"
proof (intro conjI impI)
  show g: "get_all lower (FrozenTolerantMagicDict lower (flatten mvh)) name
     = concat (map snd (filter (\<lambda>(n, vs). lower n = lower name) mvh))"
    by (simp only: get_all_values_of values_of_folded)
  show h: "header_lists_of (FrozenTolerantMagicDict lower (flatten mvh))
     = map (\<lambda>k. (k, concat (map snd (filter (\<lambda>(n, vs). lower n = k) mvh))))
         (first_seen (filter (\<lambda>k. k \<noteq> str_of ''content-length'')
            (map fst (FrozenTolerantMagicDict lower (flatten mvh)))))"
    by (simp only: header_lists_of_grouped values_of_folded)
  assume d: "distinct (map (\<lambda>p. lower (fst p)) mvh)"
  show "\<forall>(n, vs) \<in> set mvh.
           (lower name = lower n \<longrightarrow>
              get_all lower (FrozenTolerantMagicDict lower (flatten mvh)) name = vs)
           \<and> (lower n \<noteq> str_of ''content-length'' \<and> vs \<noteq> [] \<longrightarrow>
                map_of (header_lists_of (FrozenTolerantMagicDict lower (flatten mvh))) (lower n)
                  = Some vs)"
  proof (clarify, intro conjI impI)
    fix n vs
    assume m: "(n, vs) \<in> set mvh"
    {
      assume "lower name = lower n"
      then show "get_all lower (FrozenTolerantMagicDict lower (flatten mvh)) name = vs"
        using concat_unique_key[OF d m] by (simp only: g)
    }
    {
      assume c: "lower n \<noteq> str_of ''content-length'' \<and> vs \<noteq> []"
      then obtain v where v: "v \<in> set vs" by (cases vs) auto
      have "(n, v) \<in> set (flatten mvh)" using m v by (force simp: flatten_def)
      then have "lower n \<in> set (map fst (FrozenTolerantMagicDict lower (flatten mvh)))"
        by (force simp: keys_folded)
      then have k: "lower n \<in> set (first_seen (filter (\<lambda>k. k \<noteq> str_of ''content-length'')
            (map fst (FrozenTolerantMagicDict lower (flatten mvh)))))"
        using c by (simp add: set_first_seen)
      show "map_of (header_lists_of (FrozenTolerantMagicDict lower (flatten mvh))) (lower n)
                  = Some vs"
        unfolding h using k concat_unique_key[OF d m] by (simp only: map_of_grouped if_True)
    }
  qed
qed

theorem flatten_then_translate_keeps_order_witness:
  "distinct (map (\<lambda>p. ascii_lower (fst p)) [(str_of ''Set-Cookie'', [str_of ''a=1'', str_of ''b=2''])])
   \<and> get_all ascii_lower
        (FrozenTolerantMagicDict ascii_lower
           (flatten [(str_of ''Set-Cookie'', [str_of ''a=1'', str_of ''b=2''])]))
        (str_of ''set-cookie'') = [str_of ''a=1'', str_of ''b=2'']
   \<and> map_of (header_lists_of
        (FrozenTolerantMagicDict ascii_lower
           (flatten [(str_of ''Set-Cookie'', [str_of ''a=1'', str_of ''b=2''])])))
        (str_of ''set-cookie'') = Some [str_of ''a=1'', str_of ''b=2'']"
  using flatten_then_translate_keeps_order
    [of ascii_lower "[(str_of ''Set-Cookie'', [str_of ''a=1'', str_of ''b=2''])]"
        "str_of ''set-cookie''"]
  by (simp add: ascii_lower_def str_of_def FrozenTolerantMagicDict_def flatten_def)

text \<open>
  C4 as stated fails for the name \<open>content-length\<close>: for the input
  \<open>{"Content-Length": ["5"]}\<close> the container holds the value, and the translated
  map is empty.
\<close>

theorem translate_drops_content_length_values_counterexample:
  "get_all ascii_lower
     (FrozenTolerantMagicDict ascii_lower (flatten [(str_of ''Content-Length'', [str_of ''5''])]))
     (str_of ''content-length'') = [str_of ''5'']
   \<and> header_lists_of
     (FrozenTolerantMagicDict ascii_lower (flatten [(str_of ''Content-Length'', [str_of ''5''])]))
     = []"
  by (simp add: get_all_def header_lists_of_def header_lists_step_def items_def
      FrozenTolerantMagicDict_def flatten_def ascii_lower_def str_of_def)

section \<open>Exactly one response per request\<close>

lemma write_response_fresh:
  "res_fur rq = None \<Longrightarrow>
   LambdaRequest_write_response lower rq sc hs =
     Inr (LambdaResponse_init sc
            (FrozenTolerantMagicDict lower (case hs of None \<Rightarrow> [] | Some h \<Rightarrow> h)),
          rq\<lparr>res_fur := Some (LambdaResponse_init sc
            (FrozenTolerantMagicDict lower (case hs of None \<Rightarrow> [] | Some h \<Rightarrow> h)))\<rparr>)"
  by (simp add: LambdaRequest_write_response_def Let_def)

lemma write_response_conflict:
  "res_fur rq \<noteq> None \<Longrightarrow>
   LambdaRequest_write_response lower rq sc hs =
     Inl (HttpError 500 (Some (str_of ''You can only write response once.'')))"
  by (simp add: LambdaRequest_write_response_def)

lemma step_assigned:
  assumes "res_fur rq = Some r"
  shows "\<exists>res rq' r'. step lower rq c = (res, rq') \<and> res_fur rq' = Some r'
     \<and> status_code r' = status_code r \<and> headers r' = headers r
     \<and> (is_WriteResponse c \<longrightarrow>
          res = Inl (HttpError 500 (Some (str_of ''You can only write response once.'')))
          \<and> rq' = rq)"
proof (cases c)
  case (WriteResponse sc hs)
  then show ?thesis
    using assms by (simp add: step_def write_response_conflict is_WriteResponse_def)
next
  case (Write data)
  then show ?thesis
    using assms
    by (simp add: step_def LambdaResponse_write_def is_WriteResponse_def)
next
  case Finish
  then show ?thesis
    using assms by (simp add: step_def LambdaResponse_finish_def is_WriteResponse_def)
qed

lemma run_assigned:
  assumes "res_fur rq = Some r"
  shows "\<exists>ress rq' r'. run lower rq cs = (ress, rq') \<and> length ress = length cs
     \<and> (\<forall>i < length cs. is_WriteResponse (cs ! i) \<longrightarrow>
           ress ! i = Inl (HttpError 500 (Some (str_of ''You can only write response once.''))))
     \<and> res_fur rq' = Some r' \<and> status_code r' = status_code r \<and> headers r' = headers r
     \<and> (list_all is_WriteResponse cs \<longrightarrow> rq' = rq)"
  using assms
proof (induction cs arbitrary: rq r)
  case Nil
  then show ?case by simp
next
  case (Cons c cs)
  obtain res rq1 r1 where s: "step lower rq c = (res, rq1)" "res_fur rq1 = Some r1"
      "status_code r1 = status_code r" "headers r1 = headers r"
      "is_WriteResponse c \<longrightarrow>
          res = Inl (HttpError 500 (Some (str_of ''You can only write response once.'')))
          \<and> rq1 = rq"
    using step_assigned[OF Cons.prems, of lower c] by blast
  obtain ress rq' r' where t: "run lower rq1 cs = (ress, rq')" "length ress = length cs"
      "\<forall>i < length cs. is_WriteResponse (cs ! i) \<longrightarrow>
           ress ! i = Inl (HttpError 500 (Some (str_of ''You can only write response once.'')))"
      "res_fur rq' = Some r'" "status_code r' = status_code r1" "headers r' = headers r1"
      "list_all is_WriteResponse cs \<longrightarrow> rq' = rq1"
    using Cons.IH[OF s(2)] by blast
  have nth: "\<forall>i < length (c # cs). is_WriteResponse ((c # cs) ! i) \<longrightarrow>
           (res # ress) ! i = Inl (HttpError 500 (Some (str_of ''You can only write response once.'')))"
  proof (intro allI impI)
    fix i
    assume "i < length (c # cs)" "is_WriteResponse ((c # cs) ! i)"
    then show "(res # ress) ! i
        = Inl (HttpError 500 (Some (str_of ''You can only write response once.'')))"
      using s(5) t(3) by (cases i) auto
  qed
  have "run lower rq (c # cs) = (res # ress, rq')" by (simp add: s(1) t(1))
  then show ?case
    using nth t s by (intro exI[of _ "res # ress"] exI[of _ rq'] exI[of _ r']) simp
qed

lemma step_unassigned:
  "res_fur rq = None \<Longrightarrow> \<not> is_WriteResponse c \<Longrightarrow> step lower rq c = (Inr (), rq)"
  by (cases c) (simp_all add: step_def is_WriteResponse_def)

text \<open>
  C1. On a request whose future is not done, \<open>write_response\<close> succeeds: it
  constructs the response, sets it as the result of the future and returns it. On a
  request whose future is done it fails with
  \<open>HttpError(500, "You can only write response once.")\<close>, the conflict error of the
  code. No call other than \<open>write_response\<close> sets the future. Once the future is done,
  in every interleaving of further calls each \<open>write_response\<close> fails with that error
  and changes nothing, and the future still holds a response with the status code and
  headers of the first call.
\<close>

theorem begin_response_succeeds_once:
  "(res_fur rq = None \<longrightarrow>
      LambdaRequest_write_response lower rq sc hs =
        Inr (LambdaResponse_init sc
               (FrozenTolerantMagicDict lower (case hs of None \<Rightarrow> [] | Some h \<Rightarrow> h)),
             rq\<lparr>res_fur := Some (LambdaResponse_init sc
               (FrozenTolerantMagicDict lower (case hs of None \<Rightarrow> [] | Some h \<Rightarrow> h)))\<rparr>))
   \<and> (res_fur rq \<noteq> None \<longrightarrow>
      LambdaRequest_write_response lower rq sc hs =
        Inl (HttpError 500 (Some (str_of ''You can only write response once.''))))
   \<and> (res_fur rq = None \<and> \<not> is_WriteResponse c \<longrightarrow> step lower rq c = (Inr (), rq))
   \<and> (res_fur rq = Some r \<longrightarrow>
       (\<exists>ress rq' r'. run lower rq cs = (ress, rq') \<and> length ress = length cs
          \<and> (\<forall>i < length cs. is_WriteResponse (cs ! i) \<longrightarrow>
                ress ! i = Inl (HttpError 500 (Some (str_of ''You can only write response once.''))))
          \<and> res_fur rq' = Some r' \<and> status_code r' = status_code r \<and> headers r' = headers r
          \<and> (list_all is_WriteResponse cs \<longrightarrow> rq' = rq)))"
  using write_response_fresh[of rq lower sc hs] write_response_conflict[of rq lower sc hs]
    step_unassigned[of rq c lower] run_assigned[of rq r lower cs]
  by blast

theorem begin_response_succeeds_once_witness:
  "res_fur \<lparr>req_body = [], req_method = (), req_version = (), req_uri = str_of ''/'',
       req_authority = None, req_queries = [], req_headers = [], req_scheme = None :: unit option,
       res_fur = None\<rparr> = None
   \<and> LambdaRequest_write_response ascii_lower
       \<lparr>req_body = [], req_method = (), req_version = (), req_uri = str_of ''/'',
        req_authority = None, req_queries = [], req_headers = [], req_scheme = None :: unit option,
        res_fur = None\<rparr> 200 None
     = Inr (LambdaResponse_init 200 [],
            \<lparr>req_body = [], req_method = (), req_version = (), req_uri = str_of ''/'',
             req_authority = None, req_queries = [], req_headers = [],
             req_scheme = None :: unit option, res_fur = Some (LambdaResponse_init 200 [])\<rparr>)
   \<and> LambdaRequest_write_response ascii_lower
       \<lparr>req_body = [], req_method = (), req_version = (), req_uri = str_of ''/'',
        req_authority = None, req_queries = [], req_headers = [], req_scheme = None :: unit option,
        res_fur = Some (LambdaResponse_init 200 [])\<rparr> 404 None
     = Inl (HttpError 500 (Some (str_of ''You can only write response once.'')))
   \<and> (\<exists>ress rq' r'.
         run ascii_lower
           \<lparr>req_body = [], req_method = (), req_version = (), req_uri = str_of ''/'',
            req_authority = None, req_queries = [], req_headers = [],
            req_scheme = None :: unit option, res_fur = Some (LambdaResponse_init 200 [])\<rparr>
           [Write [0x68], WriteResponse 404 None, Finish] = (ress, rq')
         \<and> ress ! 1 = Inl (HttpError 500 (Some (str_of ''You can only write response once.'')))
         \<and> res_fur rq' = Some r' \<and> status_code r' = 200)"
  using begin_response_succeeds_once
      [of "\<lparr>req_body = [], req_method = (), req_version = (), req_uri = str_of ''/'',
            req_authority = None, req_queries = [], req_headers = [],
            req_scheme = None :: unit option, res_fur = None\<rparr>"
          ascii_lower 200 None Finish "LambdaResponse_init 200 []" "[]"]
    begin_response_succeeds_once
      [of "\<lparr>req_body = [], req_method = (), req_version = (), req_uri = str_of ''/'',
            req_authority = None, req_queries = [], req_headers = [],
            req_scheme = None :: unit option, res_fur = Some (LambdaResponse_init 200 [])\<rparr>"
          ascii_lower 404 None Finish "LambdaResponse_init 200 []"
          "[Write [0x68], WriteResponse 404 None, Finish]"]
  by (auto simp: FrozenTolerantMagicDict_def LambdaResponse_init_def is_WriteResponse_def)

section \<open>Construction of the example request\<close>

lemma bind_simps: "bind (Inr x) f = f x" "bind (Inl e) f = Inl e"
  by (simp_all add: bind_def)

lemma example_init: "LambdaRequest_init example_externals example_event = Inr example_request"
  by (simp add: LambdaRequest_init_def example_externals_def example_event_def
      example_request_def decode_body_def subscript_def enum_call_def ascii_upper_def
      ascii_lower_def str_of_def flatten_def FrozenTolerantMagicDict_def get_first_def
      get_all_def bind_simps)

section \<open>Request construction\<close>


lemma init_body:
  "LambdaRequest_init X ev = Inr rq \<Longrightarrow> decode_body X ev = Inr (req_body rq)"
  by (auto simp: LambdaRequest_init_def bind_def Let_def split: sum.splits)

lemma init_body_error:
  "decode_body X ev = Inl e \<Longrightarrow> LambdaRequest_init X ev = Inl e"
  by (simp add: LambdaRequest_init_def bind_def)

lemma decode_body_flagged:
  "isBase64Encoded ev = Some True \<Longrightarrow> body ev = Some (Some s) \<Longrightarrow>
   decode_body X ev
     = (if list_all (\<lambda>c. c < 128) s then a2b_base64 X (map of_nat s) else Inl ValueError)"
  by (simp add: decode_body_def subscript_def b64decode_def ascii_encode_def bind_simps)

lemma decode_body_flagged_canonical:
  assumes "isBase64Encoded ev = Some True"
    and "body ev = Some (Some (map unat (b64encode bs)))"
    and "a2b_base64 X (b64encode bs) = Inr bs"
  shows "decode_body X ev = Inr bs"
  using assms ascii_encode_unat[OF b64encode_ascii, of bs]
  by (simp add: decode_body_def subscript_def b64decode_def bind_simps)




text \<open>
  C5 (as the code has it). The body of the constructed request is decided by the
  event's flag alone. Flag true and the body a string: \<open>base64.b64decode\<close> of it, that
  is \<open>a2b_base64\<close> of its ASCII bytes (a \<open>ValueError\<close> if it has a non-ASCII
  character), which for the standard base64 text of \<open>bs\<close> is \<open>bs\<close> wherever the
  library decodes that text. Flag false and the body a non-empty string: its UTF-8
  encoding. Flag false and the body null or the empty string: the empty byte
  sequence. Flag true and the body null: construction fails with \<open>TypeError\<close>. The
  \<open>body\<close> key missing: construction fails with \<open>KeyError\<close>, whatever the flag.
  Construction succeeds only with the decoded body as the request's body, and fails
  with the decoding's error when decoding fails.
\<close>

theorem request_body_decoding:
  "(isBase64Encoded ev = Some True \<and> body ev = Some (Some s) \<longrightarrow>
      decode_body X ev
        = (if list_all (\<lambda>c. c < 128) s then a2b_base64 X (map of_nat s) else Inl ValueError))
   \<and> (isBase64Encoded ev = Some True \<and> body ev = Some (Some (map unat (b64encode bs)))
        \<and> a2b_base64 X (b64encode bs) = Inr bs \<longrightarrow>
      decode_body X ev = Inr bs)
   \<and> (isBase64Encoded ev = Some False \<and> body ev = Some (Some s) \<and> s \<noteq> [] \<longrightarrow>
      decode_body X ev =
        (case utf8_encode s of None \<Rightarrow> Inl UnicodeEncodeError | Some bs \<Rightarrow> Inr bs))
   \<and> (isBase64Encoded ev = Some False \<and> (body ev = Some None \<or> body ev = Some (Some [])) \<longrightarrow>
      decode_body X ev = Inr [])
   \<and> (isBase64Encoded ev = Some True \<and> body ev = Some None \<longrightarrow>
      decode_body X ev = Inl TypeError)
   \<and> (isBase64Encoded ev \<noteq> None \<and> body ev = None \<longrightarrow> decode_body X ev = Inl KeyError)
   \<and> (LambdaRequest_init X ev = Inr rq \<longrightarrow> decode_body X ev = Inr (req_body rq))
   \<and> (decode_body X ev = Inl e \<longrightarrow> LambdaRequest_init X ev = Inl e)"
proof (intro conjI impI)
  assume "isBase64Encoded ev = Some True \<and> body ev = Some (Some s)"
  then show "decode_body X ev
        = (if list_all (\<lambda>c. c < 128) s then a2b_base64 X (map of_nat s) else Inl ValueError)"
    by (simp add: decode_body_flagged)
next
  assume "isBase64Encoded ev = Some True \<and> body ev = Some (Some (map unat (b64encode bs)))
        \<and> a2b_base64 X (b64encode bs) = Inr bs"
  then show "decode_body X ev = Inr bs"
    by (simp add: decode_body_flagged_canonical)
next
  assume "isBase64Encoded ev = Some False \<and> body ev = Some (Some s) \<and> s \<noteq> []"
  then show "decode_body X ev =
        (case utf8_encode s of None \<Rightarrow> Inl UnicodeEncodeError | Some bs \<Rightarrow> Inr bs)"
    by (simp add: decode_body_def subscript_def bind_simps)
next
  assume "isBase64Encoded ev = Some False \<and> (body ev = Some None \<or> body ev = Some (Some []))"
  then show "decode_body X ev = Inr []"
    by (auto simp: decode_body_def subscript_def bind_simps)
next
  assume "isBase64Encoded ev = Some True \<and> body ev = Some None"
  then show "decode_body X ev = Inl TypeError"
    by (simp add: decode_body_def subscript_def b64decode_def bind_simps)
next
  assume "isBase64Encoded ev \<noteq> None \<and> body ev = None"
  then show "decode_body X ev = Inl KeyError"
    by (auto simp: decode_body_def subscript_def bind_simps)
next
  assume "LambdaRequest_init X ev = Inr rq"
  then show "decode_body X ev = Inr (req_body rq)"
    by (rule init_body)
next
  assume "decode_body X ev = Inl e"
  then show "LambdaRequest_init X ev = Inl e"
    by (rule init_body_error)
qed

theorem request_body_decoding_witness:
  "decode_body example_externals
     (example_event\<lparr>isBase64Encoded := Some True, body := Some (Some (str_of ''aGk=''))\<rparr>)
     = Inr [0x68, 0x69]
   \<and> decode_body example_externals (example_event\<lparr>body := Some (Some (str_of ''hi''))\<rparr>)
     = Inr [0x68, 0x69]
   \<and> decode_body example_externals example_event = Inr []
   \<and> decode_body example_externals (example_event\<lparr>isBase64Encoded := Some True\<rparr>)
     = Inl TypeError
   \<and> decode_body example_externals (example_event\<lparr>body := None\<rparr>) = Inl KeyError
   \<and> LambdaRequest_init example_externals (example_event\<lparr>body := None\<rparr>) = Inl KeyError
   \<and> LambdaRequest_init example_externals example_event = Inr example_request
   \<and> req_body example_request = []"
proof -
  have a: "decode_body example_externals
     (example_event\<lparr>isBase64Encoded := Some True, body := Some (Some (str_of ''aGk=''))\<rparr>)
     = Inr [0x68, 0x69]"
    using request_body_decoding
      [where ev = "example_event\<lparr>isBase64Encoded := Some True,
                     body := Some (Some (str_of ''aGk=''))\<rparr>"
         and s = "str_of ''aGk=''" and bs = "[0x68, 0x69]" and X = example_externals]
    by (simp add: example_event_def example_externals_def str_of_def a2b_standard_def
        b64_value_def b64_char_def)
  have b: "decode_body example_externals (example_event\<lparr>body := Some (Some (str_of ''hi''))\<rparr>)
     = Inr [0x68, 0x69]"
    using request_body_decoding
      [where ev = "example_event\<lparr>body := Some (Some (str_of ''hi''))\<rparr>"
         and s = "str_of ''hi''" and X = example_externals]
    by (simp add: example_event_def str_of_def utf8_encode_char_def)
  have c: "decode_body example_externals example_event = Inr []"
    using request_body_decoding [where ev = example_event and X = example_externals]
    by (simp add: example_event_def)
  have d: "decode_body example_externals (example_event\<lparr>isBase64Encoded := Some True\<rparr>)
     = Inl TypeError"
    using request_body_decoding
      [where ev = "example_event\<lparr>isBase64Encoded := Some True\<rparr>" and X = example_externals]
    by (simp add: example_event_def)
  have e: "decode_body example_externals (example_event\<lparr>body := None\<rparr>) = Inl KeyError"
    using request_body_decoding
      [where ev = "example_event\<lparr>body := None\<rparr>" and X = example_externals]
    by (simp add: example_event_def)
  have f: "LambdaRequest_init example_externals (example_event\<lparr>body := None\<rparr>) = Inl KeyError"
    using request_body_decoding
      [where ev = "example_event\<lparr>body := None\<rparr>" and X = example_externals and e = KeyError]
      e
    by simp
  have g: "req_body example_request = []"
    using request_body_decoding
      [where ev = example_event and X = example_externals and rq = example_request]
      c example_init
    by simp
  show ?thesis
    using a b c d e f g example_init by simp
qed

text \<open>
  C5 as stated fails on an absent body, and on a null body with the flag true: the
  \<open>body\<close> key is subscripted in both branches, and \<open>base64.b64decode(None)\<close> is a
  \<open>TypeError\<close>.
\<close>

theorem request_body_absent_or_null_counterexample:
  "LambdaRequest_init example_externals (example_event\<lparr>body := None\<rparr>) = Inl KeyError
   \<and> LambdaRequest_init example_externals (example_event\<lparr>isBase64Encoded := Some True\<rparr>)
     = Inl TypeError"
  by (simp add: LambdaRequest_init_def decode_body_def subscript_def example_event_def
      example_externals_def b64decode_def bind_simps)




section \<open>Dispatch of an unresolvable path\<close>

lemma init_fresh: "LambdaRequest_init X ev = Inr rq \<Longrightarrow> res_fur rq = None"
  by (auto simp: LambdaRequest_init_def bind_def Let_def split: sum.splits if_splits)

lemma default_handler_not_found:
  assumes "res_fur rq = None"
  shows "handler_process_request lower (DefaultHandler inherited) rq
     = Inr (rq\<lparr>res_fur := Some \<lparr>status_code = 404, headers = [], body_chunks = [],
                                   finished = True\<rparr>\<rparr>)"
  using assms
  by (simp add: handler_process_request_def DefaultHandler_def recover_def
      minimal_response_def LambdaRequest_write_response_def LambdaResponse_init_def
      LambdaResponse_finish_def FrozenTolerantMagicDict_def NOT_FOUND_def Let_def)

lemma not_found_envelope:
  "LambdaResponse_translate debug
     \<lparr>status_code = 404, headers = [], body_chunks = [], finished = True\<rparr>
   = Inr \<lparr>out_isBase64Encoded = False, out_statusCode = 404, out_multiValueHeaders = [],
          out_body = []\<rparr>"
  by (simp add: LambdaResponse_translate_def header_lists_of_def items_def)

text \<open>
  C8. When \<open>resolve\<close> has no match for the path of the request, \<open>process_request\<close>
  runs the built-in default handler, whatever else the routing table holds. On a
  request that has no response yet, the outcome is the request with a finished, empty
  response of status 404: no registered handler and nothing of the inherited handler
  code has run on it. For an event from which a request is constructed,
  \<open>process_lambda_request\<close> returns the envelope of that response.
\<close>

theorem unresolved_path_gives_not_found:
  assumes "resolve (path_of rq) = None"
  shows "process_request lower resolve path_of inherited rq
           = handler_process_request lower (DefaultHandler inherited) rq
     \<and> (res_fur rq = None \<longrightarrow>
          process_request lower resolve path_of inherited rq
            = Inr (rq\<lparr>res_fur := Some \<lparr>status_code = 404, headers = [], body_chunks = [],
                                          finished = True\<rparr>\<rparr>))
     \<and> (LambdaRequest_init X ev = Inr rq \<longrightarrow>
          process_lambda_request debug X resolve path_of inherited ev
            = Some (Inr \<lparr>out_isBase64Encoded = False, out_statusCode = 404,
                         out_multiValueHeaders = [], out_body = []\<rparr>))"
proof (intro conjI impI)
  show p: "process_request lower resolve path_of inherited rq
           = handler_process_request lower (DefaultHandler inherited) rq" for lower
    using assms by (simp add: process_request_def)
  show "process_request lower resolve path_of inherited rq
            = Inr (rq\<lparr>res_fur := Some \<lparr>status_code = 404, headers = [], body_chunks = [],
                                          finished = True\<rparr>\<rparr>)"
    if "res_fur rq = None"
    using that by (simp add: p default_handler_not_found)
  show "process_lambda_request debug X resolve path_of inherited ev
            = Some (Inr \<lparr>out_isBase64Encoded = False, out_statusCode = 404,
                         out_multiValueHeaders = [], out_body = []\<rparr>)"
    if i: "LambdaRequest_init X ev = Inr rq"
    using i init_fresh[OF i]
    by (simp add: process_lambda_request_def p default_handler_not_found
        get_final_response_def not_found_envelope)
qed

theorem unresolved_path_gives_not_found_witness:
  "example_resolve (str_of ''/'') = Some example_handler
   \<and> example_resolve (req_uri example_request) = None
   \<and> res_fur example_request = None
   \<and> process_request ascii_lower example_resolve req_uri example_inherited example_request
       = Inr (example_request\<lparr>res_fur := Some \<lparr>status_code = 404, headers = [],
                body_chunks = [], finished = True\<rparr>\<rparr>)
   \<and> LambdaRequest_init example_externals example_event = Inr example_request
   \<and> process_lambda_request True example_externals example_resolve req_uri example_inherited
        example_event
       = Some (Inr \<lparr>out_isBase64Encoded = False, out_statusCode = 404,
                    out_multiValueHeaders = [], out_body = []\<rparr>)"
proof -
  have n: "example_resolve (req_uri example_request) = None"
    by (simp add: example_resolve_def example_request_def str_of_def)
  have f: "res_fur example_request = None"
    by (simp add: example_request_def)
  note t = unresolved_path_gives_not_found
        [where resolve = example_resolve and path_of = req_uri and rq = example_request
           and lower = ascii_lower and inherited = example_inherited
           and X = example_externals and ev = example_event and debug = True, OF n]
  have a: "process_request ascii_lower example_resolve req_uri example_inherited example_request
       = Inr (example_request\<lparr>res_fur := Some \<lparr>status_code = 404, headers = [],
                body_chunks = [], finished = True\<rparr>\<rparr>)"
    using t f by blast
  have b: "process_lambda_request True example_externals example_resolve req_uri
        example_inherited example_event
       = Some (Inr \<lparr>out_isBase64Encoded = False, out_statusCode = 404,
                    out_multiValueHeaders = [], out_body = []\<rparr>)"
    using t example_init by blast
  have r: "example_resolve (str_of ''/'') = Some example_handler"
    by (simp add: example_resolve_def)
  show ?thesis
    using r n f a b example_init by blast
qed

section \<open>format\_timestamp\<close>










end
